theory Spec2Isabelle
  imports Main
begin

section \<open>Modelling conventions\<close>

text \<open>
  The development embeds \<^verbatim>\<open>src/localizer.ts\<close>: the tag parser \<^verbatim>\<open>createTagger\<close>, the
  localizer instance built by \<^verbatim>\<open>createLocalizer\<close> (\<^verbatim>\<open>reload\<close>, \<^verbatim>\<open>wait\<close>, \<^verbatim>\<open>read\<close>,
  \<^verbatim>\<open>format\<close>) and the handlers of \<^verbatim>\<open>createProxy\<close>.

  \<^item> A JavaScript string is a \<open>string\<close>; one \<open>char\<close> stands for one code unit in the
    range 0..255. The line terminators and white space above that range (U+2028, U+2029
    and the Unicode spaces) have no counterpart here.
  \<^item> The dictionaries of the program (\<^verbatim>\<open>tags\<close>, \<^verbatim>\<open>promises\<close>, \<^verbatim>\<open>resources\<close>, \<^verbatim>\<open>notifiers\<close>,
    \<^verbatim>\<open>formatters\<close>, and every \<^verbatim>\<open>Resource\<close>) are plain objects: a property read that finds no
    own key goes on to \<^verbatim>\<open>Object.prototype\<close>, so the twelve names
    \<^verbatim>\<open>constructor\<close>, \<^verbatim>\<open>hasOwnProperty\<close>, \<^verbatim>\<open>isPrototypeOf\<close>, \<^verbatim>\<open>propertyIsEnumerable\<close>,
    \<^verbatim>\<open>toLocaleString\<close>, \<^verbatim>\<open>toString\<close>, \<^verbatim>\<open>valueOf\<close>, \<^verbatim>\<open>__defineGetter__\<close>, \<^verbatim>\<open>__defineSetter__\<close>,
    \<^verbatim>\<open>__lookupGetter__\<close>, \<^verbatim>\<open>__lookupSetter__\<close> and \<^verbatim>\<open>__proto__\<close> are found in every one of
    them. The model follows these reads, the reads of an index, of \<^verbatim>\<open>length\<close> and of a
    method name on a string, and the calls of the inherited functions that the program
    makes.
  \<^item> The model has three results: \<open>Returns\<close>, \<open>Throws\<close> and \<open>Beyond\<close>. \<open>Beyond\<close> stands
    for the steps that leave what is described here: a write that lands on a built-in
    object or replaces a prototype (the locale is an inherited name, or the module is
    \<^verbatim>\<open>__proto__\<close>), a read of a property of a built-in function or object other than
    \<^verbatim>\<open>Object.prototype\<close> and its eleven functions, and a call whose effect is not a value of
    the types at hand. Nothing is stated about a run that is \<open>Beyond\<close>.
  \<^item> The program is a module, so its code is strict: the callee of
    \<^verbatim>\<open>(tags[t] ?? tag)(children, t)\<close> receives \<^verbatim>\<open>undefined\<close> as \<^verbatim>\<open>this\<close>, and the callee of
    \<^verbatim>\<open>notifiers[locale]![module]!(key, raw)\<close> receives \<^verbatim>\<open>notifiers[locale]\<close>.
  \<^item> A wrapper of the tag parser is a function of the value of its arguments; a result
    that kept the array \<^verbatim>\<open>children\<close> itself would see the later pushes to it.
  \<^item> An exception is a value of type \<open>error\<close>, and every \<^verbatim>\<open>try\<close>/\<^verbatim>\<open>catch\<close> of the source is a
    case distinction.
  \<^item> The collaborators (\<^verbatim>\<open>load\<close>, \<^verbatim>\<open>parse\<close>, \<^verbatim>\<open>notify\<close>, \<^verbatim>\<open>tag\<close>) are parameters; \<^verbatim>\<open>load\<close> settles,
    and \<^verbatim>\<open>notify\<close> returns a notifier. Calls of a notifier and of \<^verbatim>\<open>parse\<close> are recorded in two
    logs of the instance state.
  \<^item> \<^verbatim>\<open>console.warn\<close>, the subscription handlers and the types of the proxy are left
    out.
\<close>

datatype error = Error string | TypeError | RangeError

abbreviation KeyMissing :: error where
  "KeyMissing \<equiv> Error ''intl - key missing''"

abbreviation KeyPartial :: error where
  "KeyPartial \<equiv> Error ''intl - key partial''"

datatype 'a outcome = Returns 'a | Throws error | Beyond

text \<open>A collaborator returns or throws: its result as an outcome.\<close>

definition outcome_of :: "error + 'a \<Rightarrow> 'a outcome" where
  "outcome_of r = (case r of Inl e \<Rightarrow> Throws e | Inr v \<Rightarrow> Returns v)"

section \<open>Strings and arrays\<close>

text \<open>\<^verbatim>\<open>xs.join(sep)\<close> on an array of strings.\<close>

fun join :: "string \<Rightarrow> string list \<Rightarrow> string" where
  "join sep [] = []"
| "join sep [x] = x"
| "join sep (x # y # ys) = x @ sep @ join sep (y # ys)"

text \<open>\<^verbatim>\<open>s.split(c)\<close> for a one-character separator: the result is never empty.\<close>

fun split :: "char \<Rightarrow> string \<Rightarrow> string list" where
  "split c [] = [[]]"
| "split c (x # xs) =
     (if x = c then [] # split c xs
      else (case split c xs of p # ps \<Rightarrow> (x # p) # ps | [] \<Rightarrow> [[x]]))"

text \<open>\<^verbatim>\<open>xs.at(i)\<close>: a negative index counts from the end, out of range is \<^verbatim>\<open>undefined\<close>.\<close>

definition at :: "'a list \<Rightarrow> int \<Rightarrow> 'a option" where
  "at xs i =
     (if 0 \<le> i \<and> i < int (length xs) then Some (xs ! nat i)
      else if i < 0 \<and> - i \<le> int (length xs) then Some (xs ! nat (int (length xs) + i))
      else None)"

text \<open>\<^verbatim>\<open>s.slice(a, b)\<close> for \<open>0 \<le> a\<close>, \<open>0 \<le> b\<close>.\<close>

definition slice :: "'a list \<Rightarrow> nat \<Rightarrow> nat \<Rightarrow> 'a list" where
  "slice xs a b = take (b - a) (drop a xs)"

text \<open>\<^verbatim>\<open>[...new Set(xs)]\<close>: the first occurrence of every element, in order.\<close>

fun dedupe :: "'a list \<Rightarrow> 'a list" where
  "dedupe [] = []"
| "dedupe (x # xs) = x # dedupe (removeAll x xs)"

text \<open>The class \<^verbatim>\<open>\s\<close> and the line terminators, on code units below 256.\<close>

definition white_space :: "char \<Rightarrow> bool" where
  "white_space c \<longleftrightarrow> c \<in> set [CHR 0x09, CHR 0x0A, CHR 0x0B, CHR 0x0C, CHR 0x0D, CHR 0x20, CHR 0xA0]"

definition line_terminator :: "char \<Rightarrow> bool" where
  "line_terminator c \<longleftrightarrow> c = CHR 0x0A \<or> c = CHR 0x0D"

text \<open>
  An array index as a property key: the decimal numeral of a natural number, without
  leading zeros.
\<close>

definition digit :: "char \<Rightarrow> bool" where
  "digit c \<longleftrightarrow> c \<in> set ''0123456789''"

definition array_index :: "string \<Rightarrow> nat option" where
  "array_index k =
     (if k \<noteq> [] \<and> list_all digit k \<and> (k = ''0'' \<or> hd k \<noteq> CHR ''0'')
      then Some (foldl (\<lambda>n c. 10 * n + (of_char c - 48)) 0 k)
      else None)"

section \<open>The members of \<^verbatim>\<open>Object.prototype\<close>\<close>

text \<open>
  The own properties of \<^verbatim>\<open>Object.prototype\<close>: eleven functions and the accessor \<^verbatim>\<open>__proto__\<close>.
\<close>

definition object_prototype_functions :: "string list" where
  "object_prototype_functions =
     [''constructor'', ''__defineGetter__'', ''__defineSetter__'', ''hasOwnProperty'',
      ''__lookupGetter__'', ''__lookupSetter__'', ''isPrototypeOf'', ''propertyIsEnumerable'',
      ''toString'', ''valueOf'', ''toLocaleString'']"

definition inherited :: "string \<Rightarrow> bool" where
  "inherited k \<longleftrightarrow> k = ''__proto__'' \<or> k \<in> set object_prototype_functions"

section \<open>createTagger\<close>

text \<open>A value of type \<^verbatim>\<open>TTag | string\<close>.\<close>

datatype 't item = Str string | Tag 't

text \<open>A wrapper \<^verbatim>\<open>(children, tag) => TTag | string\<close>; \<^verbatim>\<open>Tagger<TTag>\<close> holds the own keys of \<^verbatim>\<open>tags\<close>.\<close>

type_synonym 't wrapper = "'t item list \<Rightarrow> string \<Rightarrow> 't item"

type_synonym 't Tagger = "string \<rightharpoonup> 't wrapper"

text \<open>The character class \<^verbatim>\<open>[^:>/\s]\<close> of a tag name.\<close>

definition name_char :: "char \<Rightarrow> bool" where
  "name_char c \<longleftrightarrow> c \<noteq> CHR '':'' \<and> c \<noteq> CHR ''>'' \<and> c \<noteq> CHR ''/'' \<and> \<not> white_space c"

text \<open>
  One attempt of \<^verbatim>\<open>/<\/?([^:>/\s]+)\/?>/\<close> at the start of \<open>s\<close>: the match and its group 1.
  The name is the longest run of name characters; no shorter run can be followed by
  \<^verbatim>\<open>/\<close> or \<^verbatim>\<open>>\<close>, so there is nothing to backtrack into.
\<close>

definition tag_match :: "string \<Rightarrow> (string \<times> string) option" where
  "tag_match s =
     (case s of
        [] \<Rightarrow> None
      | c # r \<Rightarrow>
          if c \<noteq> CHR ''<'' then None
          else
            let opening = (if r \<noteq> [] \<and> hd r = CHR ''/'' then ''</'' else ''<'');
                r1 = (if r \<noteq> [] \<and> hd r = CHR ''/'' then tl r else r);
                t = takeWhile name_char r1;
                r2 = dropWhile name_char r1
            in if t = [] then None
               else (case r2 of
                       x # y # _ \<Rightarrow>
                         if x = CHR ''/'' \<and> y = CHR ''>'' then Some (opening @ t @ ''/>'', t)
                         else if x = CHR ''>'' then Some (opening @ t @ ''>'', t)
                         else None
                     | [x] \<Rightarrow> if x = CHR ''>'' then Some (opening @ t @ ''>'', t) else None
                     | [] \<Rightarrow> None))"

lemma tag_match_length: "tag_match s = Some (m, t) \<Longrightarrow> 0 < length m"
  by (auto simp: tag_match_def Let_def split: list.splits if_splits)

text \<open>
  \<^verbatim>\<open>text.matchAll(re)\<close> with the global flag: the matches from left to right, each with its
  index; the search resumes at the end of a match and one position further after a
  failed attempt. \<open>i\<close> is the index of \<open>s\<close> in the whole text.
\<close>

function matchAll :: "nat \<Rightarrow> string \<Rightarrow> (nat \<times> string \<times> string) list" where
  "matchAll i [] = []"
| "matchAll i (c # s) =
     (case tag_match (c # s) of
        Some (m, t) \<Rightarrow> (i, m, t) # matchAll (i + length m) (drop (length m) (c # s))
      | None \<Rightarrow> matchAll (Suc i) s)"
  by pat_completeness auto
termination
  by (relation "measure (\<lambda>(i, s). length s)") (auto dest: tag_match_length)

text \<open>\<^verbatim>\<open>stack.at(-1)!.push(x)\<close>: a \<^verbatim>\<open>TypeError\<close> when the stack is empty.\<close>

definition push_top :: "'a list list \<Rightarrow> 'a \<Rightarrow> 'a list list outcome" where
  "push_top stack x =
     (case at stack (-1) of
        None \<Rightarrow> Throws TypeError
      | Some children \<Rightarrow> Returns (butlast stack @ [children @ [x]]))"

text \<open>
  \<^verbatim>\<open>(tags[t] ?? tag)(children, t)\<close>. An own key of \<^verbatim>\<open>tags\<close> gives its wrapper. Otherwise the
  read finds what \<^verbatim>\<open>Object.prototype\<close> has under the name, if anything, and that value, not
  being nullish, is called instead of \<^verbatim>\<open>tag\<close>, with \<^verbatim>\<open>this\<close> undefined:
  \<^item> \<^verbatim>\<open>__proto__\<close> is \<^verbatim>\<open>Object.prototype\<close> itself, which is no function: \<^verbatim>\<open>TypeError\<close>;
  \<^item> \<^verbatim>\<open>toString\<close> returns the string \<^verbatim>\<open>[object Undefined]\<close>;
  \<^item> \<^verbatim>\<open>constructor\<close> is \<^verbatim>\<open>Object\<close>, which returns the array \<^verbatim>\<open>children\<close> itself, no value of
    type \<^verbatim>\<open>TTag | string\<close>: \<open>Beyond\<close>;
  \<^item> the other nine functions convert \<^verbatim>\<open>this\<close> to an object and throw a \<^verbatim>\<open>TypeError\<close>
    (\<^verbatim>\<open>hasOwnProperty\<close> and \<^verbatim>\<open>propertyIsEnumerable\<close> first convert \<^verbatim>\<open>children\<close> to a property
    key, which joins the children as strings).
\<close>

definition call_wrapper :: "'t wrapper \<Rightarrow> 't Tagger \<Rightarrow> string \<Rightarrow> 't item list \<Rightarrow> 't item outcome" where
  "call_wrapper tag tags t children =
     (case tags t of
        Some wrapper \<Rightarrow> Returns (wrapper children t)
      | None \<Rightarrow>
          if t = ''__proto__'' then Throws TypeError
          else if t = ''toString'' then Returns (Str ''[object Undefined]'')
          else if t = ''constructor'' then Beyond
          else if t \<in> set object_prototype_functions then Throws TypeError
          else Returns (tag children t))"

text \<open>
  The body of the \<^verbatim>\<open>for\<close> loop: the state is the stack of frames (the top is the last
  element) and \<^verbatim>\<open>done\<close>. \<^verbatim>\<open>children\<close> is the top frame, to which the literal text before the
  match has been pushed when the closing branch hands it to the wrapper.
\<close>

definition tagger_step ::
  "'t wrapper \<Rightarrow> 't Tagger \<Rightarrow> string \<Rightarrow> 't item list list \<times> nat \<Rightarrow> nat \<times> string \<times> string
     \<Rightarrow> ('t item list list \<times> nat) outcome"
where
  "tagger_step tag tags text state mt =
     (case (state, mt) of ((stack, done), (index, match, t)) \<Rightarrow>
        (case (if done < index then push_top stack (Str (slice text done index)) else Returns stack) of
           Throws e \<Rightarrow> Throws e
         | Beyond \<Rightarrow> Beyond
         | Returns stack1 \<Rightarrow>
             (case
                (if at match (-2) = Some CHR ''/'' then
                   (case call_wrapper tag tags t [] of
                      Throws e \<Rightarrow> Throws e
                    | Beyond \<Rightarrow> Beyond
                    | Returns v \<Rightarrow> push_top stack1 v)
                 else if at match 1 \<noteq> Some CHR ''/'' then Returns (stack1 @ [[]])
                 else
                   (case at stack1 (-1) of
                      None \<Rightarrow> Throws TypeError
                    | Some children \<Rightarrow>
                        (case call_wrapper tag tags t children of
                           Throws e \<Rightarrow> Throws e
                         | Beyond \<Rightarrow> Beyond
                         | Returns v \<Rightarrow>
                             push_top (if length stack1 > 1 then butlast stack1 else stack1) v)))
              of
                Throws e \<Rightarrow> Throws e
              | Beyond \<Rightarrow> Beyond
              | Returns stack2 \<Rightarrow> Returns (stack2, index + length match))))"

fun tagger_loop ::
  "'t wrapper \<Rightarrow> 't Tagger \<Rightarrow> string \<Rightarrow> 't item list list \<times> nat \<Rightarrow> (nat \<times> string \<times> string) list
     \<Rightarrow> ('t item list list \<times> nat) outcome"
where
  "tagger_loop tag tags text state [] = Returns state"
| "tagger_loop tag tags text state (mt # mts) =
     (case tagger_step tag tags text state mt of
        Throws e \<Rightarrow> Throws e
      | Beyond \<Rightarrow> Beyond
      | Returns state' \<Rightarrow> tagger_loop tag tags text state' mts)"

text \<open>
  The stack when the loop is over and the text after the last match has been pushed.
\<close>

definition tagger_stack :: "'t wrapper \<Rightarrow> string \<Rightarrow> 't Tagger \<Rightarrow> 't item list list outcome" where
  "tagger_stack tag text tags =
     (case tagger_loop tag tags text ([[]], 0) (matchAll 0 text) of
        Throws e \<Rightarrow> Throws e
      | Beyond \<Rightarrow> Beyond
      | Returns (stack, done) \<Rightarrow>
          if done < length text then push_top stack (Str (slice text done (length text)))
          else Returns stack)"

text \<open>
  \<^verbatim>\<open>createTagger(tag)(text, tags)\<close>. The result is \<^verbatim>\<open>tag(stack.flat(), '')\<close>: \<open>concat\<close> joins
  all the frames left on the stack, the root frame first.
\<close>

definition createTagger :: "'t wrapper \<Rightarrow> string \<Rightarrow> 't Tagger \<Rightarrow> 't item outcome" where
  "createTagger tag text tags =
     (case tagger_stack tag text tags of
        Throws e \<Rightarrow> Throws e
      | Beyond \<Rightarrow> Beyond
      | Returns stack \<Rightarrow> Returns (tag (concat stack) []))"

text \<open>The default of \<^verbatim>\<open>params.tag\<close>, \<^verbatim>\<open>children => children.join('')\<close>, for \<^verbatim>\<open>TTag = string\<close>.\<close>

fun item_text :: "string item \<Rightarrow> string" where
  "item_text (Str s) = s"
| "item_text (Tag s) = s"

definition default_tag :: "string wrapper" where
  "default_tag children t = Str (concat (map item_text children))"

text \<open>The wrapper \<^verbatim>\<open>tags\<close> of the repository's test: \<^verbatim>\<open>`<${tag}>${children.join('')}</${tag}>`\<close>.\<close>

definition wrap :: "string wrapper" where
  "wrap children t = Str (''<'' @ t @ ''>'' @ concat (map item_text children) @ ''</'' @ t @ ''>'')"

text \<open>
  The tokens at which the loop calls a wrapper, the self-closing and the closing ones,
  and the number of frames above the root that the tokens leave: an opener adds one, a
  closer removes one unless the root frame is alone.
\<close>

definition closes :: "string \<Rightarrow> bool" where
  "closes match \<longleftrightarrow> at match (-2) = Some CHR ''/'' \<or> at match 1 = Some CHR ''/''"

fun open_frames :: "(nat \<times> string \<times> string) list \<Rightarrow> nat \<Rightarrow> nat" where
  "open_frames [] d = d"
| "open_frames ((index, match, t) # mts) d =
     open_frames mts
       (if at match (-2) = Some CHR ''/'' then d
        else if at match 1 \<noteq> Some CHR ''/'' then Suc d
        else d - 1)"

section \<open>Values\<close>

text \<open>
  \<^verbatim>\<open>type Resource = { [_ in string]: Resource | string }\<close>: an \<open>entry\<close> is a value of
  type \<^verbatim>\<open>Resource | string\<close>. A resource is the list of its own keys with their values (a
  key is bound once).
\<close>

datatype entry = Leaf string | Node "(string \<times> entry) list"

type_synonym Resource = "(string \<times> entry) list"

text \<open>
  The values that the property reads of the program can produce: besides strings and
  resources, \<^verbatim>\<open>undefined\<close>, \<^verbatim>\<open>null\<close>, the length of a string, \<^verbatim>\<open>Object.prototype\<close>, its eleven
  functions (\<open>Member\<close>, by name), and any other built-in function or object.
\<close>

datatype builtin = ObjectPrototype | Member string | OtherFunction | OtherObject

datatype jsval = Undefined | Null | Text string | Num nat | Obj Resource | Builtin builtin

fun value_of :: "entry \<Rightarrow> jsval" where
  "value_of (Leaf s) = Text s"
| "value_of (Node r) = Obj r"

text \<open>\<^verbatim>\<open>!v\<close> is \<open>\<not> truthy v\<close>; \<^verbatim>\<open>typeof v === 'object'\<close>; \<^verbatim>\<open>v\<close> is \<^verbatim>\<open>null\<close> or \<^verbatim>\<open>undefined\<close>.\<close>

fun truthy :: "jsval \<Rightarrow> bool" where
  "truthy Undefined = False"
| "truthy Null = False"
| "truthy (Text s) = (s \<noteq> [])"
| "truthy (Num n) = (n \<noteq> 0)"
| "truthy (Obj r) = True"
| "truthy (Builtin b) = True"

fun typeof_object :: "jsval \<Rightarrow> bool" where
  "typeof_object Null = True"
| "typeof_object (Obj r) = True"
| "typeof_object (Builtin ObjectPrototype) = True"
| "typeof_object (Builtin OtherObject) = True"
| "typeof_object v = False"

fun nullish :: "jsval \<Rightarrow> bool" where
  "nullish Undefined = True"
| "nullish Null = True"
| "nullish v = False"

text \<open>
  The names found on the prototypes of functions, strings and numbers, and the own
  function properties of the constructor \<^verbatim>\<open>Object\<close> (ECMAScript 2025 with its Annex B).
\<close>

definition function_prototype_names :: "string list" where
  "function_prototype_names = [''apply'', ''bind'', ''call'', ''toString'', ''constructor'']"

definition object_constructor_names :: "string list" where
  "object_constructor_names =
     [''assign'', ''create'', ''defineProperties'', ''defineProperty'', ''entries'', ''freeze'',
      ''fromEntries'', ''getOwnPropertyDescriptor'', ''getOwnPropertyDescriptors'',
      ''getOwnPropertyNames'', ''getOwnPropertySymbols'', ''getPrototypeOf'', ''groupBy'',
      ''hasOwn'', ''is'', ''isExtensible'', ''isFrozen'', ''isSealed'', ''keys'',
      ''preventExtensions'', ''seal'', ''setPrototypeOf'', ''values'']"

definition string_prototype_names :: "string list" where
  "string_prototype_names =
     [''anchor'', ''at'', ''big'', ''blink'', ''bold'', ''charAt'', ''charCodeAt'', ''codePointAt'',
      ''concat'', ''constructor'', ''endsWith'', ''fixed'', ''fontcolor'', ''fontsize'',
      ''includes'', ''indexOf'', ''isWellFormed'', ''italics'', ''lastIndexOf'', ''link'',
      ''localeCompare'', ''match'', ''matchAll'', ''normalize'', ''padEnd'', ''padStart'',
      ''repeat'', ''replace'', ''replaceAll'', ''search'', ''slice'', ''small'', ''split'',
      ''startsWith'', ''strike'', ''sub'', ''substr'', ''substring'', ''sup'',
      ''toLocaleLowerCase'', ''toLocaleUpperCase'', ''toLowerCase'', ''toString'',
      ''toUpperCase'', ''toWellFormed'', ''trim'', ''trimEnd'', ''trimLeft'', ''trimRight'',
      ''trimStart'', ''valueOf'']"

definition number_prototype_names :: "string list" where
  "number_prototype_names =
     [''constructor'', ''toExponential'', ''toFixed'', ''toLocaleString'', ''toPrecision'',
      ''toString'', ''valueOf'']"

text \<open>The property \<^verbatim>\<open>length\<close> of the eleven functions of \<^verbatim>\<open>Object.prototype\<close>.\<close>

definition member_length :: "string \<Rightarrow> nat" where
  "member_length f =
     (if f \<in> set [''__defineGetter__'', ''__defineSetter__''] then 2
      else if f \<in> set [''toString'', ''valueOf'', ''toLocaleString''] then 0
      else 1)"

text \<open>
  What a plain object without the own key \<open>k\<close> gives for \<^verbatim>\<open>o[k]\<close>: the getter \<^verbatim>\<open>__proto__\<close>
  returns the prototype of the object, \<^verbatim>\<open>Object.prototype\<close>.
\<close>

definition object_member :: "string \<Rightarrow> jsval" where
  "object_member k = (if k \<in> set object_prototype_functions then Builtin (Member k) else Undefined)"

definition inherit :: "string \<Rightarrow> jsval" where
  "inherit k = (if k = ''__proto__'' then Builtin ObjectPrototype else object_member k)"

text \<open>
  \<^verbatim>\<open>$?.[k]\<close>: \<^verbatim>\<open>undefined\<close> when \<^verbatim>\<open>$\<close> is nullish, and otherwise the property read \<^verbatim>\<open>$[k]\<close>.
  \<^item> On a resource: the own key, else what a plain object inherits.
  \<^item> On a string: the character at an index, the length, a function of
    \<^verbatim>\<open>String.prototype\<close>, else what \<^verbatim>\<open>Object.prototype\<close> has (the getter \<^verbatim>\<open>__proto__\<close> returns
    \<^verbatim>\<open>String.prototype\<close>). On a number likewise, through \<^verbatim>\<open>Number.prototype\<close>.
  \<^item> On \<^verbatim>\<open>Object.prototype\<close>: its own members; its prototype is \<^verbatim>\<open>null\<close>.
  \<^item> On one of its eleven functions: \<^verbatim>\<open>name\<close> and \<^verbatim>\<open>length\<close>, for \<^verbatim>\<open>Object\<close> also \<^verbatim>\<open>prototype\<close> and
    its own functions, then the members of \<^verbatim>\<open>Function.prototype\<close>, whose accessors \<^verbatim>\<open>caller\<close>
    and \<^verbatim>\<open>arguments\<close> throw a \<^verbatim>\<open>TypeError\<close>, then those of \<^verbatim>\<open>Object.prototype\<close>.
  \<^item> On any other built-in function or object: \<open>Beyond\<close>.
\<close>

fun get_prop :: "jsval \<Rightarrow> string \<Rightarrow> jsval outcome" where
  "get_prop Undefined k = Returns Undefined"
| "get_prop Null k = Returns Undefined"
| "get_prop (Obj r) k = Returns (case map_of r k of Some e \<Rightarrow> value_of e | None \<Rightarrow> inherit k)"
| "get_prop (Text s) k =
     Returns
       (case array_index k of
          Some i \<Rightarrow> if i < length s then Text [s ! i] else Undefined
        | None \<Rightarrow>
            if k = ''length'' then Num (length s)
            else if k \<in> set string_prototype_names then Builtin OtherFunction
            else if k = ''__proto__'' then Builtin OtherObject
            else object_member k)"
| "get_prop (Num n) k =
     Returns
       (if k \<in> set number_prototype_names then Builtin OtherFunction
        else if k = ''__proto__'' then Builtin OtherObject
        else object_member k)"
| "get_prop (Builtin ObjectPrototype) k =
     Returns (if k = ''__proto__'' then Null else object_member k)"
| "get_prop (Builtin (Member f)) k =
     (if k = ''caller'' \<or> k = ''arguments'' then Throws TypeError
      else Returns
        (if k = ''name'' then Text (if f = ''constructor'' then ''Object'' else f)
         else if k = ''length'' then Num (member_length f)
         else if f = ''constructor'' \<and> k = ''prototype'' then Builtin ObjectPrototype
         else if f = ''constructor'' \<and> k \<in> set object_constructor_names then Builtin OtherFunction
         else if k \<in> set function_prototype_names then Builtin OtherFunction
         else if k = ''__proto__'' then Builtin OtherFunction
         else object_member k))"
| "get_prop (Builtin OtherFunction) k = Beyond"
| "get_prop (Builtin OtherObject) k = Beyond"

text \<open>\<^verbatim>\<open>key.reduce(($, k) => $?.[k], resource)\<close>.\<close>

fun reduce :: "jsval \<Rightarrow> string list \<Rightarrow> jsval outcome" where
  "reduce v [] = Returns v"
| "reduce v (k # ks) =
     (case get_prop v k of
        Throws e \<Rightarrow> Throws e
      | Beyond \<Rightarrow> Beyond
      | Returns v' \<Rightarrow> reduce v' ks)"

text \<open>
  The value \<^verbatim>\<open>raw\<close> of \<^verbatim>\<open>read\<close>:
  \<^verbatim>\<open>resource?.[key.join('.')] ?? key.reduce(($, k) => $?.[k], resource)\<close>.
\<close>

definition raw_of :: "jsval \<Rightarrow> string list \<Rightarrow> jsval outcome" where
  "raw_of resource key =
     (case get_prop resource (join ''.'' key) of
        Throws e \<Rightarrow> Throws e
      | Beyond \<Rightarrow> Beyond
      | Returns v \<Rightarrow> if nullish v then reduce resource key else Returns v)"

section \<open>Two-level dictionaries\<close>

text \<open>
  \<^verbatim>\<open>promises\<close>, \<^verbatim>\<open>resources\<close> and \<^verbatim>\<open>notifiers\<close> are objects created by \<^verbatim>\<open>{}\<close>, holding for a
  locale an object created by \<^verbatim>\<open>{}\<close>: a \<open>dictionary\<close> has their own keys. A read finds a
  value stored by the program (\<open>Own\<close>) or something else.
\<close>

type_synonym 'a dictionary = "string \<rightharpoonup> (string \<rightharpoonup> 'a)"

datatype 'a found = Own 'a | Other jsval

text \<open>
  \<^verbatim>\<open>X[locale]?.[module]\<close>. Without the own key \<^verbatim>\<open>locale\<close>, \<^verbatim>\<open>X[locale]\<close> is what \<^verbatim>\<open>X\<close> inherits
  under that name, and \<^verbatim>\<open>module\<close> is read from it.
\<close>

definition lookup :: "'a dictionary \<Rightarrow> string \<Rightarrow> string \<Rightarrow> 'a found outcome" where
  "lookup X locale module =
     (case X locale of
        Some inner \<Rightarrow>
          (case inner module of
             Some v \<Rightarrow> Returns (Own v)
           | None \<Rightarrow> Returns (Other (inherit module)))
      | None \<Rightarrow>
          (case get_prop (inherit locale) module of
             Throws e \<Rightarrow> Throws e
           | Beyond \<Rightarrow> Beyond
           | Returns v \<Rightarrow> Returns (Other v)))"

text \<open>\<^verbatim>\<open>X[locale]![module]!\<close>: the read of \<^verbatim>\<open>module\<close> throws when \<^verbatim>\<open>X[locale]\<close> is \<^verbatim>\<open>undefined\<close>.\<close>

definition lookup_strict :: "'a dictionary \<Rightarrow> string \<Rightarrow> string \<Rightarrow> 'a found outcome" where
  "lookup_strict X locale module =
     (if X locale = None \<and> inherit locale = Undefined then Throws TypeError
      else lookup X locale module)"

text \<open>The value that a read of \<^verbatim>\<open>resources\<close> found.\<close>

fun found_value :: "Resource found \<Rightarrow> jsval" where
  "found_value (Own r) = Obj r"
| "found_value (Other v) = v"

text \<open>
  \<^verbatim>\<open>X[locale] ??= {}\<close> followed by \<^verbatim>\<open>X[locale][module] = v\<close>. When \<^verbatim>\<open>X\<close> has no own key
  \<^verbatim>\<open>locale\<close> but inherits a value under that name, the value is not nullish and the write
  lands on it, a built-in object. The key \<^verbatim>\<open>__proto__\<close> is a setter that replaces the
  prototype of the inner object. Both are \<open>Beyond\<close>.
\<close>

definition store :: "'a dictionary \<Rightarrow> string \<Rightarrow> string \<Rightarrow> 'a \<Rightarrow> 'a dictionary outcome" where
  "store X locale module v =
     (case X locale of
        Some inner \<Rightarrow>
          if module = ''__proto__'' \<and> inner module = None then Beyond
          else Returns (X(locale \<mapsto> inner(module \<mapsto> v)))
      | None \<Rightarrow>
          if inherited locale \<or> module = ''__proto__'' then Beyond
          else Returns (X(locale \<mapsto> [module \<mapsto> v])))"

section \<open>The localizer instance\<close>

text \<open>
  A notifier \<^verbatim>\<open>(key, raw) => void\<close> returns normally (\<open>None\<close>) or throws. A formatter
  takes the values and returns a string or throws. A promise made by \<^verbatim>\<open>reload\<close> is the pair
  it was made for with its outcome: \<open>Inl\<close> rejected, \<open>Inr\<close> fulfilled with a resource,
  after its \<^verbatim>\<open>.then\<close> callback has stored the resource.
\<close>

type_synonym notifier = "string list \<Rightarrow> jsval \<Rightarrow> error option"

type_synonym 'v Formatter = "'v \<Rightarrow> error + string"

type_synonym access = "string \<times> string \<times> string list \<times> jsval"

type_synonym promise = "string \<times> string \<times> (error + Resource)"

record 'v params =
  load :: "string \<Rightarrow> string \<Rightarrow> error + Resource"
  parse :: "string \<Rightarrow> string \<Rightarrow> string list \<Rightarrow> string \<Rightarrow> error + 'v Formatter"
  notify :: "string \<Rightarrow> string \<Rightarrow> promise \<Rightarrow> notifier"

text \<open>
  The variables closed over by the instance. \<open>notified\<close> lists the notifier calls made so
  far (locale and module of the notifier, then its two arguments), \<open>parsed\<close> the calls of
  \<^verbatim>\<open>params.parse\<close>.
\<close>

record 'v localizer =
  locales :: "string list"
  modules :: "string list"
  promises :: "promise dictionary"
  resources :: "Resource dictionary"
  notifiers :: "notifier dictionary"
  formatters :: "string \<rightharpoonup> 'v Formatter"
  notified :: "access list"
  parsed :: "(string \<times> string \<times> string list \<times> string) list"

definition createLocalizer :: "'v localizer" where
  "createLocalizer =
     \<lparr>locales = [], modules = [], promises = Map.empty, resources = Map.empty,
      notifiers = Map.empty, formatters = Map.empty, notified = [], parsed = []\<rparr>"

text \<open>The defaults \<^verbatim>\<open>params.parse ??= ...\<close> and \<^verbatim>\<open>params.notify ??= ...\<close>.\<close>

definition default_parse :: "string \<Rightarrow> string \<Rightarrow> string list \<Rightarrow> string \<Rightarrow> error + 'v Formatter" where
  "default_parse locale module key raw = Inr (\<lambda>values. Inr raw)"

definition default_notify :: "string \<Rightarrow> string \<Rightarrow> promise \<Rightarrow> notifier" where
  "default_notify locale module promise = (\<lambda>key raw. None)"

subsection \<open>reload, setLocales, setModules, wait\<close>

text \<open>\<^verbatim>\<open>locales.flatMap(locale => modules.map(module => ({ locale, module })))\<close>.\<close>

definition cross :: "string list \<Rightarrow> string list \<Rightarrow> (string \<times> string) list" where
  "cross ls ms = concat (map (\<lambda>locale. map (\<lambda>module. (locale, module)) ms) ls)"

text \<open>
  \<^verbatim>\<open>Promise.try(() => params.load(locale, module)).catch(error => {}).then(resource => ...)\<close>:
  a \<^verbatim>\<open>load\<close> that throws or rejects gives the empty resource, and the \<^verbatim>\<open>.then\<close> that follows
  returns the resource it stores.
\<close>

definition load_promise :: "'v params \<Rightarrow> string \<Rightarrow> string \<Rightarrow> promise" where
  "load_promise P locale module =
     (locale, module,
      case load P locale module of Inl error \<Rightarrow> Inr [] | Inr resource \<Rightarrow> Inr resource)"

text \<open>The predicate of the \<^verbatim>\<open>filter\<close> of \<^verbatim>\<open>reload\<close>, \<^verbatim>\<open>!promises[locale]?.[module]\<close>.\<close>

definition unloaded :: "'v localizer \<Rightarrow> string \<times> string \<Rightarrow> bool outcome" where
  "unloaded st lm =
     (case lm of (locale, module) \<Rightarrow>
        (case lookup (promises st) locale module of
           Throws e \<Rightarrow> Throws e
         | Beyond \<Rightarrow> Beyond
         | Returns (Own promise) \<Rightarrow> Returns False
         | Returns (Other v) \<Rightarrow> Returns (\<not> truthy v)))"

text \<open>\<^verbatim>\<open>xs.filter(p)\<close> and \<^verbatim>\<open>xs.map(f)\<close> for callbacks that may throw: from left to right.\<close>

fun filter_array :: "('a \<Rightarrow> bool outcome) \<Rightarrow> 'a list \<Rightarrow> 'a list outcome" where
  "filter_array p [] = Returns []"
| "filter_array p (x # xs) =
     (case p x of
        Throws e \<Rightarrow> Throws e
      | Beyond \<Rightarrow> Beyond
      | Returns b \<Rightarrow>
          (case filter_array p xs of
             Throws e \<Rightarrow> Throws e
           | Beyond \<Rightarrow> Beyond
           | Returns ys \<Rightarrow> Returns (if b then x # ys else ys)))"

fun map_array :: "('a \<Rightarrow> 'b outcome) \<Rightarrow> 'a list \<Rightarrow> 'b list outcome" where
  "map_array f [] = Returns []"
| "map_array f (x # xs) =
     (case f x of
        Throws e \<Rightarrow> Throws e
      | Beyond \<Rightarrow> Beyond
      | Returns y \<Rightarrow>
          (case map_array f xs of
             Throws e \<Rightarrow> Throws e
           | Beyond \<Rightarrow> Beyond
           | Returns ys \<Rightarrow> Returns (y # ys)))"

text \<open>The body of the \<^verbatim>\<open>forEach\<close> of \<^verbatim>\<open>reload\<close>, and the \<^verbatim>\<open>forEach\<close>.\<close>

definition reload_pair :: "'v params \<Rightarrow> 'v localizer \<Rightarrow> string \<times> string \<Rightarrow> 'v localizer outcome" where
  "reload_pair P st lm =
     (case lm of (locale, module) \<Rightarrow>
        (case store (promises st) locale module (load_promise P locale module) of
           Throws e \<Rightarrow> Throws e
         | Beyond \<Rightarrow> Beyond
         | Returns promises' \<Rightarrow>
             (case store (notifiers st) locale module
                     (notify P locale module (load_promise P locale module)) of
                Throws e \<Rightarrow> Throws e
              | Beyond \<Rightarrow> Beyond
              | Returns notifiers' \<Rightarrow>
                  Returns (st\<lparr>promises := promises', notifiers := notifiers'\<rparr>))))"

fun reload_pairs :: "'v params \<Rightarrow> 'v localizer \<Rightarrow> (string \<times> string) list \<Rightarrow> 'v localizer outcome" where
  "reload_pairs P st [] = Returns st"
| "reload_pairs P st (lm # lms) =
     (case reload_pair P st lm of
        Throws e \<Rightarrow> Throws e
      | Beyond \<Rightarrow> Beyond
      | Returns st' \<Rightarrow> reload_pairs P st' lms)"

text \<open>
  \<^verbatim>\<open>reload()\<close>: the filter runs over the whole cross-product before the first load is
  started, so an exception of the filter leaves the dictionaries as they were.
\<close>

definition reload :: "'v params \<Rightarrow> 'v localizer \<Rightarrow> 'v localizer outcome" where
  "reload P st =
     (case filter_array (unloaded st) (cross (locales st) (modules st)) of
        Throws e \<Rightarrow> Throws e
      | Beyond \<Rightarrow> Beyond
      | Returns lms \<Rightarrow> reload_pairs P st lms)"

text \<open>
  \<^verbatim>\<open>setLocales\<close> and \<^verbatim>\<open>setModules\<close> assign the new sequence, then reload: when \<^verbatim>\<open>reload\<close> throws,
  the sequence has been assigned.
\<close>

definition setLocales :: "'v params \<Rightarrow> string list \<Rightarrow> 'v localizer \<Rightarrow> 'v localizer outcome" where
  "setLocales P locales' st = reload P (st\<lparr>locales := dedupe locales'\<rparr>)"

definition setModules :: "'v params \<Rightarrow> string list \<Rightarrow> 'v localizer \<Rightarrow> 'v localizer outcome" where
  "setModules P modules' st = reload P (st\<lparr>modules := dedupe modules'\<rparr>)"

text \<open>
  The \<^verbatim>\<open>.then\<close> callback of a load, \<^verbatim>\<open>resource => ((resources[locale] ??= {})[module] = resource)\<close>,
  runs when the load has settled; with it the promise is fulfilled.
\<close>

definition settle :: "'v localizer \<Rightarrow> promise \<Rightarrow> 'v localizer outcome" where
  "settle st promise =
     (case promise of
        (locale, module, Inl e) \<Rightarrow> Returns st
      | (locale, module, Inr resource) \<Rightarrow>
          (case store (resources st) locale module resource of
             Throws e \<Rightarrow> Throws e
           | Beyond \<Rightarrow> Beyond
           | Returns resources' \<Rightarrow> Returns (st\<lparr>resources := resources'\<rparr>)))"

fun settle_all :: "'v localizer \<Rightarrow> promise list \<Rightarrow> 'v localizer outcome" where
  "settle_all st [] = Returns st"
| "settle_all st (p # ps) =
     (case settle st p of
        Throws e \<Rightarrow> Throws e
      | Beyond \<Rightarrow> Beyond
      | Returns st' \<Rightarrow> settle_all st' ps)"

text \<open>
  \<^verbatim>\<open>wait()\<close> builds the array of \<^verbatim>\<open>promises[locale]![module]!\<close> over the cross-product and
  hands it to \<^verbatim>\<open>Promise.all\<close>: the result is the array, or the exception of a read.
\<close>

definition wait :: "'v localizer \<Rightarrow> promise found list outcome" where
  "wait st =
     map_array (\<lambda>(locale, module). lookup_strict (promises st) locale module)
       (cross (locales st) (modules st))"

text \<open>
  The outcome of \<^verbatim>\<open>Promise.all(elements)\<close> once the loads have settled: an element that is
  no promise counts as a value (\<^verbatim>\<open>Promise.all\<close> reads its property \<^verbatim>\<open>then\<close>, which none of
  \<^verbatim>\<open>Object.prototype\<close> and its functions has); a rejected element rejects the whole.
\<close>

fun promise_all :: "promise found list \<Rightarrow> unit outcome" where
  "promise_all [] = Returns ()"
| "promise_all (Own (locale, module, Inl e) # xs) =
     (case promise_all xs of Beyond \<Rightarrow> Beyond | _ \<Rightarrow> Throws e)"
| "promise_all (Own (locale, module, Inr r) # xs) = promise_all xs"
| "promise_all (Other v # xs) =
     (case get_prop v ''then'' of
        Beyond \<Rightarrow> Beyond
      | Throws e \<Rightarrow> (case promise_all xs of Beyond \<Rightarrow> Beyond | _ \<Rightarrow> Throws e)
      | Returns u \<Rightarrow> promise_all xs)"

text \<open>The promises among the elements.\<close>

fun own_promises :: "promise found list \<Rightarrow> promise list" where
  "own_promises [] = []"
| "own_promises (Own p # xs) = p # own_promises xs"
| "own_promises (Other v # xs) = own_promises xs"

text \<open>
  \<^verbatim>\<open>await wait()\<close>. When the promise of \<^verbatim>\<open>Promise.all\<close> is fulfilled, every promise that
  \<^verbatim>\<open>wait\<close> collected is fulfilled, so its \<^verbatim>\<open>.then\<close> callback has run: the resources stored are
  those of the collected promises, and of no other pair.
\<close>

definition await_wait :: "'v localizer \<Rightarrow> 'v localizer outcome" where
  "await_wait st =
     (case wait st of
        Throws e \<Rightarrow> Throws e
      | Beyond \<Rightarrow> Beyond
      | Returns elements \<Rightarrow>
          (case promise_all elements of
             Throws e \<Rightarrow> Throws e
           | Beyond \<Rightarrow> Beyond
           | Returns u \<Rightarrow> settle_all st (own_promises elements)))"

subsection \<open>read\<close>

text \<open>
  \<^verbatim>\<open>(.+?)\/>\<close> after \<^verbatim>\<open><:\<close>: the shortest non-empty run of characters other than line
  terminators that is followed by \<^verbatim>\<open>/>\<close>, with the text after the match.
\<close>

fun lazy_id :: "string \<Rightarrow> (string \<times> string) option" where
  "lazy_id [] = None"
| "lazy_id (c # s) =
     (if line_terminator c then None
      else if take 2 s = ''/>'' then Some ([c], drop 2 s)
      else map_option (\<lambda>(nestedId, rest). (c # nestedId, rest)) (lazy_id s))"

text \<open>One attempt of \<^verbatim>\<open>/<:(.+?)\/>/\<close> at the start of \<open>s\<close>: group 1 and the text after the match.\<close>

definition ref_match :: "string \<Rightarrow> (string \<times> string) option" where
  "ref_match s = (if take 2 s = ''<:'' then lazy_id (drop 2 s) else None)"

lemma lazy_id_length: "lazy_id s = Some (nestedId, rest) \<Longrightarrow> length rest < length s"
  by (induction s arbitrary: nestedId rest) (auto split: if_splits)

lemma ref_match_length: "ref_match s = Some (nestedId, rest) \<Longrightarrow> length rest < length s"
  by (auto simp: ref_match_def dest!: lazy_id_length split: if_splits)

text \<open>
  The matches of the global regular expression in \<open>s\<close>, from left to right, with the
  characters between them: \<open>Inl c\<close> is a character outside every match, \<open>Inr nestedId\<close> a
  match. \<^verbatim>\<open>replaceAll\<close> finds all the matches before it calls the replacer.
\<close>

function pieces :: "string \<Rightarrow> (char + string) list" where
  "pieces [] = []"
| "pieces (c # s) =
     (case ref_match (c # s) of
        Some (nestedId, rest) \<Rightarrow> Inr nestedId # pieces rest
      | None \<Rightarrow> Inl c # pieces s)"
  by pat_completeness auto
termination
  by (relation "measure length") (auto dest: ref_match_length)

text \<open>
  The arguments of the nested \<^verbatim>\<open>read\<close> in the replacer:
  \<^verbatim>\<open>const [key, ns = module] = nestedId.split(':').reverse()\<close>, then \<^verbatim>\<open>key.split('.')\<close>. An
  empty array would leave \<^verbatim>\<open>key\<close> undefined and \<^verbatim>\<open>key.split\<close> would throw (\<open>None\<close>).
\<close>

definition reference :: "string \<Rightarrow> string \<Rightarrow> (string \<times> string list) option" where
  "reference module nestedId =
     (case rev (split CHR '':'' nestedId) of
        [] \<Rightarrow> None
      | [key] \<Rightarrow> Some (module, split CHR ''.'' key)
      | key # ns # _ \<Rightarrow> Some (ns, split CHR ''.'' key))"

text \<open>
  The call of an inherited function in the place of a notifier, with \<^verbatim>\<open>this\<close> the object
  \<^verbatim>\<open>notifiers[locale]\<close> (\<open>Some\<close> of its own keys when the instance created it) and the arguments
  \<^verbatim>\<open>key\<close> and \<^verbatim>\<open>raw\<close>. \<^verbatim>\<open>__defineGetter__\<close> and \<^verbatim>\<open>__defineSetter__\<close> throw a \<^verbatim>\<open>TypeError\<close> unless
  \<^verbatim>\<open>raw\<close> is a function, and then define an accessor on the object; \<^verbatim>\<open>toLocaleString\<close> calls
  the method \<^verbatim>\<open>toString\<close> of the object, which is a notifier when the object has that own
  key; the other functions return.
\<close>

definition call_member :: "(string \<rightharpoonup> 'a) option \<Rightarrow> string \<Rightarrow> jsval \<Rightarrow> unit outcome" where
  "call_member this f raw =
     (if f = ''__defineGetter__'' \<or> f = ''__defineSetter__'' then
        (case raw of
           Builtin (Member g) \<Rightarrow> Beyond
         | Builtin OtherFunction \<Rightarrow> Beyond
         | _ \<Rightarrow> Throws TypeError)
      else if f = ''toLocaleString'' then
        (case this of
           None \<Rightarrow> Returns ()
         | Some inner \<Rightarrow> if inner ''toString'' = None then Returns () else Beyond)
      else Returns ())"

text \<open>
  \<^verbatim>\<open>notifiers[locale]![module]!(key, raw)\<close>, once the callee has been read: the outcome of the
  call and the notifier calls made. A value that is no function cannot be called.
\<close>

definition call_notifier ::
  "(string \<rightharpoonup> notifier) option \<Rightarrow> notifier found \<Rightarrow> string \<Rightarrow> string \<Rightarrow> string list \<Rightarrow> jsval
     \<Rightarrow> unit outcome \<times> access list"
where
  "call_notifier this callee locale module key raw =
     (case callee of
        Own notifier \<Rightarrow>
          ((case notifier key raw of None \<Rightarrow> Returns () | Some e \<Rightarrow> Throws e),
           [(locale, module, key, raw)])
      | Other (Builtin (Member f)) \<Rightarrow> (call_member this f raw, [])
      | Other (Builtin OtherFunction) \<Rightarrow> (Beyond, [])
      | Other v \<Rightarrow> (Throws TypeError, []))"

text \<open>
  \<^verbatim>\<open>read(locale, module, key)\<close> and the \<^verbatim>\<open>replaceAll\<close> with its replacer. The result is
  the returned string or the exception, with the notifier calls made, in order. The first
  argument bounds the depth of the recursion: the call stack is finite, and a chain of
  references deeper than it ends in a \<^verbatim>\<open>RangeError\<close>. A \<^verbatim>\<open>raw\<close> that is neither falsy nor an
  object nor a string has no method \<^verbatim>\<open>replaceAll\<close>.
\<close>

fun read :: "nat \<Rightarrow> 'v localizer \<Rightarrow> string \<Rightarrow> string \<Rightarrow> string list \<Rightarrow> string outcome \<times> access list"
  and replaceAll ::
    "nat \<Rightarrow> 'v localizer \<Rightarrow> string \<Rightarrow> string \<Rightarrow> (char + string) list \<Rightarrow> string outcome \<times> access list"
where
  "read 0 st locale module key = (Throws RangeError, [])"
| "read (Suc n) st locale module key =
     (case lookup (resources st) locale module of
        Throws e \<Rightarrow> (Throws e, [])
      | Beyond \<Rightarrow> (Beyond, [])
      | Returns resource \<Rightarrow>
     (case raw_of (found_value resource) key of
        Throws e \<Rightarrow> (Throws e, [])
      | Beyond \<Rightarrow> (Beyond, [])
      | Returns raw \<Rightarrow>
     (case lookup_strict (notifiers st) locale module of
        Throws e \<Rightarrow> (Throws e, [])
      | Beyond \<Rightarrow> (Beyond, [])
      | Returns callee \<Rightarrow>
     (case call_notifier (notifiers st locale) callee locale module key raw of
        (Throws e, log) \<Rightarrow> (Throws e, log)
      | (Beyond, log) \<Rightarrow> (Beyond, log)
      | (Returns u, log) \<Rightarrow>
          if \<not> truthy raw then (Throws KeyMissing, log)
          else if typeof_object raw then (Throws KeyPartial, log)
          else
            (case raw of
               Text s \<Rightarrow>
                 (case replaceAll n st locale module (pieces s) of
                    (r, accesses) \<Rightarrow> (r, log @ accesses))
             | _ \<Rightarrow>
                 ((case get_prop raw ''replaceAll'' of
                     Throws e \<Rightarrow> Throws e
                   | Beyond \<Rightarrow> Beyond
                   | Returns v \<Rightarrow> Throws TypeError),
                  log))))))"
| "replaceAll n st locale module [] = (Returns [], [])"
| "replaceAll n st locale module (Inl c # ps) =
     (case replaceAll n st locale module ps of
        (Returns r, accesses) \<Rightarrow> (Returns (c # r), accesses)
      | (Throws e, accesses) \<Rightarrow> (Throws e, accesses)
      | (Beyond, accesses) \<Rightarrow> (Beyond, accesses))"
| "replaceAll n st locale module (Inr nestedId # ps) =
     (case reference module nestedId of
        None \<Rightarrow> (Throws TypeError, [])
      | Some (ns, key) \<Rightarrow>
          (case read n st locale ns key of
             (Throws e, accesses) \<Rightarrow> (Throws e, accesses)
           | (Beyond, accesses) \<Rightarrow> (Beyond, accesses)
           | (Returns r, accesses) \<Rightarrow>
               (case replaceAll n st locale module ps of
                  (Returns r', accesses') \<Rightarrow> (Returns (r @ r'), accesses @ accesses')
                | (Throws e, accesses') \<Rightarrow> (Throws e, accesses @ accesses')
                | (Beyond, accesses') \<Rightarrow> (Beyond, accesses @ accesses'))))"

subsection \<open>format\<close>

text \<open>
  The cache key \<^verbatim>\<open>`${locale}:${module}:${key}`\<close>: an array is printed with commas. The key
  holds two colons, which no name inherited from \<^verbatim>\<open>Object.prototype\<close> does, so a read of
  \<^verbatim>\<open>formatters[id]\<close> finds an own key or \<^verbatim>\<open>undefined\<close>.
\<close>

definition format_id :: "string \<Rightarrow> string \<Rightarrow> string list \<Rightarrow> string" where
  "format_id locale module key = locale @ '':'' @ module @ '':'' @ join '','' key"

text \<open>
  The \<^verbatim>\<open>try\<close> block for one locale:
  \<^verbatim>\<open>(formatters[id] ??= params.parse!(locale, module, [], read(locale, module, key)))(values)\<close>.
  The right-hand side of \<^verbatim>\<open>??=\<close> is evaluated only when \<^verbatim>\<open>formatters[id]\<close> is absent.
\<close>

definition attempt ::
  "'v params \<Rightarrow> nat \<Rightarrow> 'v localizer \<Rightarrow> string \<Rightarrow> string \<Rightarrow> string list \<Rightarrow> 'v
     \<Rightarrow> string outcome \<times> 'v localizer"
where
  "attempt P n st locale module key values =
     (case formatters st (format_id locale module key) of
        Some formatter \<Rightarrow> (outcome_of (formatter values), st)
      | None \<Rightarrow>
          (case read n st locale module key of
             (Throws e, accesses) \<Rightarrow> (Throws e, st\<lparr>notified := notified st @ accesses\<rparr>)
           | (Beyond, accesses) \<Rightarrow> (Beyond, st\<lparr>notified := notified st @ accesses\<rparr>)
           | (Returns raw, accesses) \<Rightarrow>
               (let st1 = st\<lparr>notified := notified st @ accesses,
                             parsed := parsed st @ [(locale, module, [], raw)]\<rparr>
                in case parse P locale module [] raw of
                     Inl e \<Rightarrow> (Throws e, st1)
                   | Inr formatter \<Rightarrow>
                       (outcome_of (formatter values),
                        st1\<lparr>formatters := (formatters st1)(format_id locale module key \<mapsto> formatter)\<rparr>))))"

text \<open>
  The \<^verbatim>\<open>for\<close> loop of \<^verbatim>\<open>format\<close> over the locales still to try, and the final \<^verbatim>\<open>return\<close>. The
  read \<^verbatim>\<open>resources[locale]?.[module]\<close> that opens the body is outside the \<^verbatim>\<open>try\<close>: its
  exception is the exception of \<^verbatim>\<open>format\<close>.
\<close>

fun format_loop ::
  "'v params \<Rightarrow> nat \<Rightarrow> 'v localizer \<Rightarrow> string \<Rightarrow> string list \<Rightarrow> 'v \<Rightarrow> string list
     \<Rightarrow> string outcome \<times> 'v localizer"
where
  "format_loop P n st module key values [] =
     (Returns (join ''|'' (locales st) @ '':'' @ module @ '':'' @ join ''.'' key), st)"
| "format_loop P n st module key values (locale # ls) =
     (case lookup (resources st) locale module of
        Throws e \<Rightarrow> (Throws e, st)
      | Beyond \<Rightarrow> (Beyond, st)
      | Returns resource \<Rightarrow>
          (case attempt P n st locale module key values of
             (Returns result, st') \<Rightarrow> (Returns result, st')
           | (Beyond, st') \<Rightarrow> (Beyond, st')
           | (Throws error, st') \<Rightarrow> format_loop P n st' module key values ls))"

definition format ::
  "'v params \<Rightarrow> nat \<Rightarrow> 'v localizer \<Rightarrow> string \<Rightarrow> string list \<Rightarrow> 'v \<Rightarrow> string outcome \<times> 'v localizer"
where
  "format P n st module key values = format_loop P n st module key values (locales st)"

subsection \<open>createProxy\<close>

text \<open>
  A proxy node is its target, \<^verbatim>\<open>{ module, key }\<close>; the root is \<open>([], [])\<close>. The \<^verbatim>\<open>get\<close> handler
  for a string property \<open>p\<close>: \<^verbatim>\<open>$\<close> gives the node itself, the first property becomes the
  module, the later ones are appended to the key.
\<close>

definition proxy_get :: "string \<times> string list \<Rightarrow> string \<Rightarrow> string \<times> string list" where
  "proxy_get target p =
     (case target of (module, key) \<Rightarrow>
        if p = ''$'' then (module, key)
        else (if module = [] then p else module,
              if module = [] then key else if key = [] then [p] else key @ [p]))"


section \<open>Calls on an instance\<close>

text \<open>
  What a client does with an instance: the calls of its functions, and \<open>Settle\<close>, the
  event that the load of a pair has settled and its \<^verbatim>\<open>.then\<close> callback runs. The natural
  number is the depth available to \<^verbatim>\<open>read\<close>. A call that throws leaves the state it had
  reached; after a call that is \<open>Beyond\<close> there is no state to go on with. \<open>run P d calls\<close>
  is the state of an instance created by \<^verbatim>\<open>createLocalizer\<close> after the calls, in order.
\<close>

datatype 'v call =
    SetLocales "string list"
  | SetModules "string list"
  | AwaitWait
  | Settle string string
  | Read string string "string list"
  | Format string "string list" 'v

fun perform :: "'v params \<Rightarrow> nat \<Rightarrow> 'v localizer \<Rightarrow> 'v call \<Rightarrow> 'v localizer option" where
  "perform P d st (SetLocales ls) =
     (case setLocales P ls st of
        Returns st' \<Rightarrow> Some st'
      | Throws e \<Rightarrow> Some (st\<lparr>locales := dedupe ls\<rparr>)
      | Beyond \<Rightarrow> None)"
| "perform P d st (SetModules ms) =
     (case setModules P ms st of
        Returns st' \<Rightarrow> Some st'
      | Throws e \<Rightarrow> Some (st\<lparr>modules := dedupe ms\<rparr>)
      | Beyond \<Rightarrow> None)"
| "perform P d st AwaitWait =
     (case await_wait st of Returns st' \<Rightarrow> Some st' | Throws e \<Rightarrow> Some st | Beyond \<Rightarrow> None)"
| "perform P d st (Settle locale module) =
     (case promises st locale of
        None \<Rightarrow> Some st
      | Some inner \<Rightarrow>
          (case inner module of
             None \<Rightarrow> Some st
           | Some promise \<Rightarrow>
               (case settle st promise of Returns st' \<Rightarrow> Some st' | _ \<Rightarrow> None)))"
| "perform P d st (Read locale module key) =
     (case read d st locale module key of
        (Beyond, accesses) \<Rightarrow> None
      | (r, accesses) \<Rightarrow> Some (st\<lparr>notified := notified st @ accesses\<rparr>))"
| "perform P d st (Format module key values) =
     (case format P d st module key values of (Beyond, st') \<Rightarrow> None | (r, st') \<Rightarrow> Some st')"

fun run_from :: "'v params \<Rightarrow> nat \<Rightarrow> 'v localizer \<Rightarrow> 'v call list \<Rightarrow> 'v localizer option" where
  "run_from P d st [] = Some st"
| "run_from P d st (c # cs) =
     (case perform P d st c of None \<Rightarrow> None | Some st' \<Rightarrow> run_from P d st' cs)"

definition run :: "'v params \<Rightarrow> nat \<Rightarrow> 'v call list \<Rightarrow> 'v localizer option" where
  "run P d calls = run_from P d createLocalizer calls"

section \<open>Notions used in the statements\<close>

text \<open>The own keys of a two-level dictionary.\<close>

definition own :: "'a dictionary \<Rightarrow> string \<Rightarrow> string \<Rightarrow> 'a option" where
  "own X locale module = (case X locale of None \<Rightarrow> None | Some inner \<Rightarrow> inner module)"

text \<open>
  The entry of a resource at a key path, by own keys alone: under the flattened key if
  the resource has it, else by the segments from the root; there is nothing below a leaf.
\<close>

fun walk :: "entry \<Rightarrow> string list \<Rightarrow> entry option" where
  "walk e [] = Some e"
| "walk (Leaf s) (k # ks) = None"
| "walk (Node r) (k # ks) = (case map_of r k of None \<Rightarrow> None | Some e \<Rightarrow> walk e ks)"

definition own_entry :: "Resource \<Rightarrow> string list \<Rightarrow> entry option" where
  "own_entry r key =
     (case map_of r (join ''.'' key) of Some e \<Rightarrow> Some e | None \<Rightarrow> walk (Node r) key)"

text \<open>
  The nested form of a key path: \<^verbatim>\<open>{ a: { b: "x" } }\<close> is the resource
  \<open>[(''a'', nested [''b''] ''x'')]\<close>. The flattened form of a key path \<open>key\<close> is the
  resource \<open>[(join ''.'' key, Leaf x)]\<close>.
\<close>

fun nested :: "string list \<Rightarrow> string \<Rightarrow> entry" where
  "nested [] x = Leaf x"
| "nested (k # ks) x = Node [(k, nested ks x)]"

text \<open>A string in which the regular expression of \<^verbatim>\<open>read\<close> finds no reference marker.\<close>

definition no_reference :: "string \<Rightarrow> bool" where
  "no_reference s \<longleftrightarrow> pieces s = map Inl s"




text \<open>
  A triple whose parts can be told apart in its id: no colon in the locale and the module,
  a key path with a segment at least and no comma in a segment.
\<close>

definition separable :: "string \<Rightarrow> string \<Rightarrow> string list \<Rightarrow> bool" where
  "separable locale module key \<longleftrightarrow>
     CHR '':'' \<notin> set locale \<and> CHR '':'' \<notin> set module \<and> key \<noteq> [] \<and>
     (\<forall>k\<in>set key. CHR '','' \<notin> set k)"

text \<open>
  A pair is reconciled by a sequence of calls, started in \<open>st\<close>, when after one of the
  calls it is in the cross-product of the locales and the modules.
\<close>

fun reconciled :: "'v params \<Rightarrow> nat \<Rightarrow> 'v localizer \<Rightarrow> 'v call list \<Rightarrow> string \<times> string \<Rightarrow> bool" where
  "reconciled P d st [] lm = False"
| "reconciled P d st (c # cs) lm =
     (case perform P d st c of
        None \<Rightarrow> False
      | Some st' \<Rightarrow>
          lm \<in> set (cross (locales st') (modules st')) \<or> reconciled P d st' cs lm)"

text \<open>
  The invariant of the load records: a promise stored for a pair is the one \<^verbatim>\<open>reload\<close>
  makes for it, a pair has a notifier exactly when it has a promise, and a resource
  stored for a pair is the one its promise is fulfilled with.
\<close>

definition loads_ok :: "'v params \<Rightarrow> 'v localizer \<Rightarrow> bool" where
  "loads_ok P st \<longleftrightarrow>
     (\<forall>l m p. own (promises st) l m = Some p \<longrightarrow> p = load_promise P l m) \<and>
     (\<forall>l m. own (notifiers st) l m = None \<longleftrightarrow> own (promises st) l m = None) \<and>
     (\<forall>l m r. own (resources st) l m = Some r \<longrightarrow> load_promise P l m = (l, m, Inr r))"

section \<open>An example instance\<close>

text \<open>
  An instance with the default \<^verbatim>\<open>parse\<close> and \<^verbatim>\<open>notify\<close>, whose \<^verbatim>\<open>load\<close> knows the locale
  \<^verbatim>\<open>en\<close> and throws for any other: the module \<^verbatim>\<open>base\<close> is
  \<^verbatim>\<open>{ app: "X", welcome: "Hi <:app/>", e: "", a: { b: "x" }, link: "<a><:app/></a>" }\<close>, the
  module \<^verbatim>\<open>flat\<close> is \<^verbatim>\<open>{ "a.b": "x" }\<close>, \<^verbatim>\<open>nest\<close> is \<^verbatim>\<open>{ a: { b: "x" } }\<close>, \<^verbatim>\<open>m1\<close> is
  \<^verbatim>\<open>{ k: "<:m2:other/>" }\<close>, \<^verbatim>\<open>m2\<close> is \<^verbatim>\<open>{ other: "Y" }\<close>, \<^verbatim>\<open>void\<close> is \<^verbatim>\<open>{ "a.b": "" }\<close> and
  \<^verbatim>\<open>hollow\<close> is \<^verbatim>\<open>{ a: { b: "" } }\<close>.
  \<open>example_instance\<close> is the state after \<^verbatim>\<open>setLocales('en')\<close>, \<^verbatim>\<open>setModules\<close> with these
  modules and \<^verbatim>\<open>await wait()\<close>.
\<close>

definition example_base :: Resource where
  "example_base =
     [(''app'', Leaf ''X''), (''welcome'', Leaf ''Hi <:app/>''), (''e'', Leaf []),
      (''a'', Node [(''b'', Leaf ''x'')]), (''link'', Leaf ''<a><:app/></a>'')]"

definition example_load :: "string \<Rightarrow> string \<Rightarrow> error + Resource" where
  "example_load locale module =
     (if locale \<noteq> ''en'' then Inl (Error ''no such locale'')
      else if module = ''base'' then Inr example_base
      else if module = ''flat'' then Inr [(''a.b'', Leaf ''x'')]
      else if module = ''nest'' then Inr [(''a'', Node [(''b'', Leaf ''x'')])]
      else if module = ''m1'' then Inr [(''k'', Leaf ''<:m2:other/>'')]
      else if module = ''m2'' then Inr [(''other'', Leaf ''Y'')]
      else if module = ''void'' then Inr [(''a.b'', Leaf [])]
      else if module = ''hollow'' then Inr [(''a'', Node [(''b'', Leaf [])])]
      else Inl (Error ''no such module''))"

definition example_params :: "unit params" where
  "example_params = \<lparr>load = example_load, parse = default_parse, notify = default_notify\<rparr>"

definition example_modules :: "string list" where
  "example_modules = [''base'', ''flat'', ''nest'', ''m1'', ''m2'', ''void'', ''hollow'']"

definition example_calls :: "unit call list" where
  "example_calls = [SetLocales [''en''], SetModules example_modules, AwaitWait]"

definition example_instance :: "unit localizer" where
  "example_instance =
     (case run example_params 0 example_calls of Some st \<Rightarrow> st | None \<Rightarrow> createLocalizer)"

text \<open>The same collaborators, with a \<^verbatim>\<open>parse\<close> that always throws.\<close>

definition failing_params :: "unit params" where
  "failing_params = example_params\<lparr>parse := \<lambda>locale module key raw. Inl (Error ''parse'')\<rparr>"

section \<open>Properties of the tag parser\<close>

lemma at_last: "stack \<noteq> [] \<Longrightarrow> at stack (-1) = Some (last stack)"
  by (cases stack rule: rev_cases) (auto simp: at_def nth_append)

lemma push_top_Returns:
  "stack \<noteq> [] \<Longrightarrow> push_top stack x = Returns (butlast stack @ [last stack @ [x]])"
  by (simp add: push_top_def at_last)

lemma inherited_names:
  "inherited ''__proto__''" "inherited ''toString''" "inherited ''constructor''"
  "inherited ''valueOf''"
  by (simp_all add: inherited_def object_prototype_functions_def)

lemma call_wrapper_own_or_fallback:
  assumes "tags t \<noteq> None \<or> \<not> inherited t"
  shows "\<exists>v. call_wrapper tag tags t children = Returns v"
proof (cases "tags t")
  case (Some wrapper)
  then show ?thesis by (simp add: call_wrapper_def)
next
  case None
  with assms have plain: "\<not> inherited t"
    by simp
  then have "t \<noteq> ''__proto__''" "t \<noteq> ''toString''" "t \<noteq> ''constructor''"
    using inherited_names by auto
  moreover from plain have "t \<notin> set object_prototype_functions"
    by (simp add: inherited_def)
  ultimately show ?thesis
    using None by (simp add: call_wrapper_def)
qed

text \<open>
  One step of the loop that returns keeps the root frame, and changes the number of frames
  as the kind of its token says.
\<close>

lemma tagger_step_frames:
  assumes ne: "stack \<noteq> []"
    and step: "tagger_step tag tags text (stack, dn) (index, match, t) = Returns (stack', dn')"
  shows "stack' \<noteq> [] \<and> length stack' = Suc (open_frames [(index, match, t)] (length stack - 1))"
proof -
  let ?before = "if dn < index then push_top stack (Str (slice text dn index)) else Returns stack"
  obtain stack1 where s1: "?before = Returns stack1" "stack1 \<noteq> []" "length stack1 = length stack"
    using ne by (cases "dn < index") (simp_all add: push_top_Returns)
  let ?popped = "if length stack1 > 1 then butlast stack1 else stack1"
  have popped: "?popped \<noteq> []"
    using s1(2) by (cases stack1 rule: rev_cases) auto
  show ?thesis
  proof (cases "at match (-2) = Some CHR ''/''")
    case True
    with step s1 obtain v where "stack' = butlast stack1 @ [last stack1 @ [v]]"
      by (auto simp: tagger_step_def push_top_Returns split: outcome.splits)
    then show ?thesis using True s1 ne by (cases stack) auto
  next
    case self: False
    show ?thesis
    proof (cases "at match 1 \<noteq> Some CHR ''/''")
      case True
      with step s1 self have "stack' = stack1 @ [[]]"
        by (auto simp: tagger_step_def split: outcome.splits)
      then show ?thesis using True self s1 ne by (cases stack) auto
    next
      case False
      have pt: "push_top ?popped v = Returns (butlast ?popped @ [last ?popped @ [v]])" for v
        by (rule push_top_Returns [OF popped])
      from step s1(1) self False obtain v where "push_top ?popped v = Returns stack'"
        by (auto simp: tagger_step_def at_last [OF s1(2)] split: outcome.splits split del: if_split)
      with pt have "stack' = butlast ?popped @ [last ?popped @ [v]]"
        by simp
      then have "length stack' = length ?popped"
        using popped by simp
      moreover have "0 < length stack"
        using ne by simp
      ultimately show ?thesis
        using False self s1(3) ne by (cases stack) auto
    qed
  qed
qed

lemma tagger_step_returns:
  assumes ne: "stack \<noteq> []"
    and own: "closes match \<longrightarrow> tags t \<noteq> None \<or> \<not> inherited t"
  shows "\<exists>stack' dn'. tagger_step tag tags text (stack, dn) (index, match, t) = Returns (stack', dn')"
proof -
  let ?before = "if dn < index then push_top stack (Str (slice text dn index)) else Returns stack"
  obtain stack1 where s1: "?before = Returns stack1" "stack1 \<noteq> []"
    using ne by (cases "dn < index") (simp_all add: push_top_Returns)
  let ?popped = "if length stack1 > 1 then butlast stack1 else stack1"
  have popped: "?popped \<noteq> []"
    using s1(2) by (cases stack1 rule: rev_cases) auto
  show ?thesis
  proof (cases "at match (-2) = Some CHR ''/''")
    case True
    with own obtain v where "call_wrapper tag tags t [] = Returns v"
      using call_wrapper_own_or_fallback [of tags t tag "[]"] by (auto simp: closes_def)
    then show ?thesis
      using True s1 by (simp add: tagger_step_def push_top_Returns)
  next
    case self: False
    show ?thesis
    proof (cases "at match 1 \<noteq> Some CHR ''/''")
      case True
      then show ?thesis using self s1 by (simp add: tagger_step_def)
    next
      case False
      with own obtain v where "call_wrapper tag tags t (last stack1) = Returns v"
        using call_wrapper_own_or_fallback [of tags t tag "last stack1"] by (auto simp: closes_def)
      moreover note push_top_Returns [OF popped, of v]
      ultimately show ?thesis
        using False self s1 by (simp add: tagger_step_def at_last split del: if_split)
    qed
  qed
qed

lemma tagger_loop_frames:
  "stack \<noteq> [] \<Longrightarrow> tagger_loop tag tags text (stack, dn) mts = Returns (stack', dn') \<Longrightarrow>
   stack' \<noteq> [] \<and> length stack' = Suc (open_frames mts (length stack - 1))"
proof (induction mts arbitrary: stack dn)
  case Nil
  then show ?case by (cases stack) auto
next
  case (Cons mt mts)
  obtain index match t where mt: "mt = (index, match, t)"
    by (cases mt) auto
  from Cons.prems(2) obtain s1 d1 where
    step: "tagger_step tag tags text (stack, dn) (index, match, t) = Returns (s1, d1)"
    and rest: "tagger_loop tag tags text (s1, d1) mts = Returns (stack', dn')"
    by (auto simp: mt split: outcome.splits)
  from tagger_step_frames [OF Cons.prems(1) step]
  have s1: "s1 \<noteq> []" "length s1 = Suc (open_frames [(index, match, t)] (length stack - 1))"
    by simp_all
  from Cons.IH [OF s1(1) rest] s1(2) show ?case
    by (simp add: mt)
qed

lemma tagger_loop_returns:
  "stack \<noteq> [] \<Longrightarrow>
   \<forall>(index, match, t)\<in>set mts. closes match \<longrightarrow> tags t \<noteq> None \<or> \<not> inherited t \<Longrightarrow>
   \<exists>stack' dn'. tagger_loop tag tags text (stack, dn) mts = Returns (stack', dn')"
proof (induction mts arbitrary: stack dn)
  case Nil
  then show ?case by simp
next
  case (Cons mt mts)
  obtain index match t where mt: "mt = (index, match, t)"
    by (cases mt) auto
  with Cons.prems(2) have "closes match \<longrightarrow> tags t \<noteq> None \<or> \<not> inherited t"
    by simp
  from tagger_step_returns [where stack = stack and match = match and tags = tags and t = t,
      OF Cons.prems(1) this] obtain s1 d1 where
    step: "tagger_step tag tags text (stack, dn) (index, match, t) = Returns (s1, d1)"
    by blast
  from tagger_step_frames [OF Cons.prems(1) step] have "s1 \<noteq> []"
    by simp
  from Cons.IH [OF this, of d1] Cons.prems(2) step show ?case
    by (simp add: mt)
qed

lemma tagger_stack_frames:
  assumes "tagger_stack tag text tags = Returns stack"
  shows "stack \<noteq> [] \<and> length stack = Suc (open_frames (matchAll 0 text) 0)"
proof -
  from assms obtain s d where
    loop: "tagger_loop tag tags text ([[]], 0) (matchAll 0 text) = Returns (s, d)"
    by (auto simp: tagger_stack_def split: outcome.splits)
  from tagger_loop_frames [OF _ loop]
  have s: "s \<noteq> []" "length s = Suc (open_frames (matchAll 0 text) 0)"
    by simp_all
  from assms loop have "stack = s \<or> stack = butlast s @ [last s @ [Str (slice text d (length text))]]"
    by (auto simp: tagger_stack_def push_top_Returns [OF s(1)] split: if_splits)
  with s show ?thesis
    by (cases s rule: rev_cases) auto
qed

lemma tagger_stack_returns:
  assumes "\<forall>(index, match, t)\<in>set (matchAll 0 text). closes match \<longrightarrow> tags t \<noteq> None \<or> \<not> inherited t"
  shows "\<exists>stack. tagger_stack tag text tags = Returns stack"
proof -
  from tagger_loop_returns [OF _ assms, of "[[]]" tag "text" 0] obtain s d where
    loop: "tagger_loop tag tags text ([[]], 0) (matchAll 0 text) = Returns (s, d)"
    by auto
  from tagger_loop_frames [OF _ loop] have "s \<noteq> []"
    by simp
  then show ?thesis
    using loop by (simp add: tagger_stack_def push_top_Returns)
qed

text \<open>
  C8, as stated, fails. The claim has the children of the root frame alone passed to the
  fallback tag. For the text \<^verbatim>\<open><a>x\<close> the opener is never closed: the stack ends as the
  empty root frame and the frame of \<^verbatim>\<open>a\<close> holding \<^verbatim>\<open>x\<close>, and the result is the fallback tag
  of \<^verbatim>\<open>["x"]\<close>, not of the root frame's \<^verbatim>\<open>[]\<close>.
\<close>

theorem tagger_root_frame_counterexample:
  "tagger_stack default_tag ''<a>x'' Map.empty = Returns [[], [Str ''x'']] \<and>
   createTagger default_tag ''<a>x'' Map.empty = Returns (Str ''x'') \<and>
   createTagger default_tag ''<a>x'' Map.empty \<noteq> Returns (default_tag (hd [[], [Str ''x'']]) [])"
  by code_simp

text \<open>
  C8, amended. For the text \<^verbatim>\<open>0<a>1<b/>2</a>3\<close> with \<^verbatim>\<open>{ a: wrap, b: wrap }\<close> the tagger returns
  the fallback tag, with the empty name, of the children \<^verbatim>\<open>0\<close>, \<^verbatim>\<open><a>1<b></b>2</a>\<close>, \<^verbatim>\<open>3\<close>. In
  general, whenever the loop ends without an exception, the stack holds the root frame
  and one frame for every tag still open (as many as the openers left unclosed by the
  tokens), and the children of all these frames, concatenated from the root frame up, are
  passed to the fallback tag with the empty name; an exception of a wrapper call is the
  result of the tagger. When no tag is left open the stack is the root frame alone and
  its children are what the fallback tag receives. The loop ends without an exception
  when every name of a closing or self-closing token is an own key of the tag map or is
  not inherited from \<^verbatim>\<open>Object.prototype\<close>.
\<close>

theorem tagger_example_and_flat:
  "createTagger tag0 ''0<a>1<b/>2</a>3'' [''a'' \<mapsto> wrap, ''b'' \<mapsto> wrap]
     = Returns (tag0 [Str ''0'', Str ''<a>1<b></b>2</a>'', Str ''3''] []) \<and>
   (\<forall>stack. tagger_stack tag text tags = Returns stack \<longrightarrow>
      stack \<noteq> [] \<and> length stack = Suc (open_frames (matchAll 0 text) 0) \<and>
      createTagger tag text tags = Returns (tag (concat stack) []) \<and>
      (open_frames (matchAll 0 text) 0 = 0 \<longrightarrow>
         createTagger tag text tags = Returns (tag (hd stack) []))) \<and>
   (\<forall>e. tagger_stack tag text tags = Throws e \<longrightarrow> createTagger tag text tags = Throws e) \<and>
   ((\<forall>(index, match, t)\<in>set (matchAll 0 text). closes match \<longrightarrow> tags t \<noteq> None \<or> \<not> inherited t) \<longrightarrow>
      (\<exists>stack. tagger_stack tag text tags = Returns stack))"
proof (intro conjI allI impI)
  show "createTagger tag0 ''0<a>1<b/>2</a>3'' [''a'' \<mapsto> wrap, ''b'' \<mapsto> wrap]
     = Returns (tag0 [Str ''0'', Str ''<a>1<b></b>2</a>'', Str ''3''] [])"
    by code_simp
next
  fix stack assume st: "tagger_stack tag text tags = Returns stack"
  from tagger_stack_frames [OF st]
  show "stack \<noteq> []" "length stack = Suc (open_frames (matchAll 0 text) 0)"
    by simp_all
  show "createTagger tag text tags = Returns (tag (concat stack) [])"
    using st by (simp add: createTagger_def)
  assume "open_frames (matchAll 0 text) 0 = 0"
  with tagger_stack_frames [OF st] have "concat stack = hd stack"
    by (cases stack) auto
  then show "createTagger tag text tags = Returns (tag (hd stack) [])"
    using st by (simp add: createTagger_def)
next
  fix e assume "tagger_stack tag text tags = Throws e"
  then show "createTagger tag text tags = Throws e"
    by (simp add: createTagger_def)
next
  assume "\<forall>(index, match, t)\<in>set (matchAll 0 text). closes match \<longrightarrow> tags t \<noteq> None \<or> \<not> inherited t"
  then show "\<exists>stack. tagger_stack tag text tags = Returns stack"
    by (rule tagger_stack_returns)
qed

text \<open>
  C8, witness: the text \<^verbatim>\<open><a>x</a>y\<close> with an empty tag map leaves no tag open, and the
  fallback tag receives the children of the root frame; the text \<^verbatim>\<open><a>x\<close> leaves one.
\<close>

theorem tagger_example_and_flat_witness:
  "createTagger default_tag ''<a>x</a>y'' Map.empty =
     Returns (default_tag (hd [[Str ''x'', Str ''y'']]) []) \<and>
   length [[], [Str ''x'']] = Suc (open_frames (matchAll 0 ''<a>x'') 0)"
proof -
  have st: "tagger_stack default_tag ''<a>x</a>y'' Map.empty = Returns [[Str ''x'', Str ''y'']]"
    and fr: "open_frames (matchAll 0 ''<a>x</a>y'') 0 = 0"
    and st2: "tagger_stack default_tag ''<a>x'' Map.empty = Returns [[], [Str ''x'']]"
    by code_simp+
  note closed = tagger_example_and_flat [of _ default_tag "''<a>x</a>y''" Map.empty,
      THEN conjunct2, THEN conjunct1, rule_format, OF st]
  note opened = tagger_example_and_flat [of _ default_tag "''<a>x''" Map.empty,
      THEN conjunct2, THEN conjunct1, rule_format, OF st2]
  from closed fr opened show ?thesis
    by simp
qed




section \<open>Properties of the localizer\<close>

subsection \<open>Names and dictionaries\<close>

lemma inherited_chars:
  "\<forall>k\<in>set (''__proto__'' # object_prototype_functions). CHR ''.'' \<notin> set k \<and> CHR '':'' \<notin> set k"
  by code_simp

lemma inherited_no_dot: "CHR ''.'' \<in> set k \<Longrightarrow> \<not> inherited k"
  using inherited_chars by (auto simp: inherited_def)

lemma inherited_no_colon: "CHR '':'' \<in> set k \<Longrightarrow> \<not> inherited k"
  using inherited_chars by (auto simp: inherited_def)

lemma format_id_not_inherited: "\<not> inherited (format_id locale module key)"
  by (rule inherited_no_colon) (simp add: format_id_def)

lemma inherit_plain: "\<not> inherited k \<Longrightarrow> inherit k = Undefined"
  by (simp add: inherited_def inherit_def object_member_def)

lemma inherit_Undefined: "inherit k = Undefined \<longleftrightarrow> \<not> inherited k"
  by (simp add: inherited_def inherit_def object_member_def)

lemma lookup_own: "own X l m = Some v \<Longrightarrow> lookup X l m = Returns (Own v)"
  by (auto simp: own_def lookup_def split: option.splits)

lemma lookup_Own: "lookup X l m = Returns (Own v) \<longleftrightarrow> own X l m = Some v"
  by (auto simp: own_def lookup_def split: option.splits outcome.splits)

lemma lookup_plain:
  "own X l m = None \<Longrightarrow> \<not> inherited l \<Longrightarrow> \<not> inherited m \<Longrightarrow> lookup X l m = Returns (Other Undefined)"
  by (auto simp: own_def lookup_def inherit_plain split: option.splits)


lemma lookup_strict_own: "own X l m = Some v \<Longrightarrow> lookup_strict X l m = Returns (Own v)"
  by (auto simp: lookup_strict_def lookup_own) (simp add: own_def)

lemma lookup_strict_Own: "lookup_strict X l m = Returns (Own v) \<longleftrightarrow> own X l m = Some v"
  by (auto simp: lookup_strict_def lookup_Own own_def split: if_splits)

lemma lookup_strict_plain:
  assumes "own X l m = None" "\<not> inherited l" "\<not> inherited m"
  shows "lookup_strict X l m = (if X l = None then Throws TypeError else Returns (Other Undefined))"
  using assms by (simp add: lookup_strict_def lookup_plain inherit_plain)

lemma store_own:
  "store X l m v = Returns X' \<Longrightarrow>
   own X' l' m' = (if l' = l \<and> m' = m then Some v else own X l' m')"
  by (auto simp: store_def own_def split: option.splits if_splits)

lemma store_plain:
  "\<not> inherited l \<Longrightarrow> m \<noteq> ''__proto__'' \<Longrightarrow> \<exists>X'. store X l m v = Returns X'"
  by (auto simp: store_def split: option.splits)

lemma store_not_Throws: "store X l m v \<noteq> Throws e"
  by (auto simp: store_def split: option.splits)

subsection \<open>What \<^verbatim>\<open>read\<close> depends on\<close>


subsection \<open>Strings, reference markers and key paths\<close>

lemma split_nonempty: "split c s \<noteq> []"
  by (induction s) (auto split: list.splits)

lemma split_no_separator: "c \<notin> set s \<Longrightarrow> split c s = [s]"
  by (induction s) auto

lemma split_append: "split c (a @ c # b) = split c a @ split c b"
proof (induction a)
  case Nil
  then show ?case by simp
next
  case (Cons x a)
  then show ?case
    using split_nonempty [of c a] by (cases "split c a") auto
qed

lemma reference_key:
  "CHR '':'' \<notin> set key \<Longrightarrow> reference module key = Some (module, split CHR ''.'' key)"
  by (simp add: reference_def split_no_separator)

lemma reference_module_key:
  assumes "CHR '':'' \<notin> set ns" "CHR '':'' \<notin> set key"
  shows "reference module (ns @ CHR '':'' # key) = Some (ns, split CHR ''.'' key)"
  using assms by (simp add: reference_def split_append split_no_separator)

text \<open>
  The scan of the global regular expression: the characters before the first position
  at which it matches are kept, and after a match the scan goes on behind it.
\<close>

lemma pieces_scan:
  "\<forall>i<length pre. ref_match (drop i (pre @ s)) = None \<Longrightarrow>
   pieces (pre @ s) = map Inl pre @ pieces s"
proof (induction pre)
  case Nil
  then show ?case by simp
next
  case (Cons c pre)
  from Cons.prems have "ref_match (c # pre @ s) = None"
    by (auto dest: spec [of _ 0])
  moreover have "\<forall>i<length pre. ref_match (drop i (pre @ s)) = None"
  proof (intro allI impI)
    fix i assume "i < length pre"
    with Cons.prems have "ref_match (drop (Suc i) ((c # pre) @ s)) = None"
      by (auto dest: spec [of _ "Suc i"])
    then show "ref_match (drop i (pre @ s)) = None"
      by simp
  qed
  ultimately show ?case
    using Cons.IH by simp
qed

lemma pieces_match:
  assumes "ref_match s = Some (ref, post)"
  shows "pieces s = Inr ref # pieces post"
proof (cases s)
  case Nil
  with assms show ?thesis by (simp add: ref_match_def)
next
  case (Cons c s')
  with assms show ?thesis by simp
qed

lemma no_colon_scan:
  assumes "CHR '':'' \<notin> set pre" and "s = [] \<or> hd s \<noteq> CHR '':''"
  shows "\<forall>i<length pre. ref_match (drop i (pre @ s)) = None"
proof (intro allI impI)
  fix i assume i: "i < length pre"
  then obtain c rest where d: "drop i pre = c # rest"
    by (cases "drop i pre") auto
  then have "set rest \<subseteq> set pre"
    by (metis set_drop_subset set_subset_Cons subset_trans)
  with assms(1) have "CHR '':'' \<notin> set rest"
    by auto
  then have neq: "take 2 (c # rest @ s) \<noteq> ''<:''"
    using assms(2) by (cases rest; cases s) auto
  have "drop i (pre @ s) = c # rest @ s"
    using i d by simp
  then show "ref_match (drop i (pre @ s)) = None"
    by (simp only: ref_match_def neq if_False)
qed

lemma lazy_id_exact:
  "ref \<noteq> [] \<Longrightarrow> \<forall>c\<in>set ref. \<not> line_terminator c \<Longrightarrow>
   \<forall>i. 0 < i \<longrightarrow> take 2 (drop i ref) \<noteq> ''/>'' \<Longrightarrow>
   lazy_id (ref @ ''/>'' @ post) = Some (ref, post)"
proof (induction ref)
  case Nil
  then show ?case by simp
next
  case (Cons c ref)
  from Cons.prems(2) have c: "\<not> line_terminator c"
    by simp
  show ?case
  proof (cases ref)
    case Nil
    then show ?thesis using c by simp
  next
    case ref: (Cons d ref')
    have first: "take 2 (ref @ ''/>'' @ post) \<noteq> ''/>''"
    proof (cases ref')
      case Nil
      then show ?thesis using ref by simp
    next
      case (Cons d' ref'')
      from Cons.prems(3) have "take 2 (drop (Suc 0) (c # ref)) \<noteq> ''/>''"
        by (rule allE [of _ "Suc 0"]) simp
      then show ?thesis using ref Cons by simp
    qed
    have inside: "\<forall>i. 0 < i \<longrightarrow> take 2 (drop i ref) \<noteq> ''/>''"
    proof (intro allI impI)
      fix i :: nat assume "0 < i"
      from Cons.prems(3) have "take 2 (drop (Suc i) (c # ref)) \<noteq> ''/>''"
        by (rule allE [of _ "Suc i"]) simp
      then show "take 2 (drop i ref) \<noteq> ''/>''"
        by simp
    qed
    have "ref \<noteq> []" "\<forall>c\<in>set ref. \<not> line_terminator c"
      using ref Cons.prems(2) by simp_all
    from Cons.IH [OF this inside] have rest: "lazy_id (ref @ ''/>'' @ post) = Some (ref, post)" .
    have "lazy_id (c # (ref @ ''/>'' @ post)) = Some (c # ref, post)"
      by (simp only: lazy_id.simps c first rest if_False option.map prod.case)
    then show ?thesis by simp
  qed
qed

lemma ref_match_marker:
  assumes "ref \<noteq> []" "\<forall>c\<in>set ref. \<not> line_terminator c"
    "\<forall>i. 0 < i \<longrightarrow> take 2 (drop i ref) \<noteq> ''/>''"
  shows "ref_match (''<:'' @ ref @ ''/>'' @ post) = Some (ref, post)"
  using lazy_id_exact [OF assms, of post] by (simp add: ref_match_def)

lemma no_closer_inside:
  assumes "CHR ''>'' \<notin> set ref"
  shows "\<forall>i. 0 < i \<longrightarrow> take 2 (drop i ref) \<noteq> ''/>''"
proof (intro allI impI notI)
  fix i :: nat
  assume "take 2 (drop i ref) = ''/>''"
  then have "CHR ''>'' \<in> set (take 2 (drop i ref))"
    by simp
  then have "CHR ''>'' \<in> set ref"
    by (meson in_set_dropD in_set_takeD)
  with assms show False
    by simp
qed

lemma replaceAll_text:
  "replaceAll n st l m (map Inl pre @ ps) =
     (case replaceAll n st l m ps of
        (Returns r, accesses) \<Rightarrow> (Returns (pre @ r), accesses)
      | (Throws e, accesses) \<Rightarrow> (Throws e, accesses)
      | (Beyond, accesses) \<Rightarrow> (Beyond, accesses))"
  by (induction pre) (auto split: prod.splits outcome.splits)

lemma replaceAll_plain: "replaceAll n st l m (map Inl s) = (Returns s, [])"
  using replaceAll_text [of n st l m s "[]"] by simp

lemma replaceAll_text_fst:
  "fst (replaceAll n st l m (map Inl pre @ ps)) =
     (case fst (replaceAll n st l m ps) of
        Returns r \<Rightarrow> Returns (pre @ r)
      | Throws e \<Rightarrow> Throws e
      | Beyond \<Rightarrow> Beyond)"
  by (simp add: replaceAll_text split: prod.splits outcome.splits)

lemma replaceAll_reference:
  "fst (replaceAll n st l m (Inr ref # ps)) =
     (case reference m ref of
        None \<Rightarrow> Throws TypeError
      | Some (ns, key) \<Rightarrow>
          (case fst (read n st l ns key) of
             Throws e \<Rightarrow> Throws e
           | Beyond \<Rightarrow> Beyond
           | Returns r \<Rightarrow>
               (case fst (replaceAll n st l m ps) of
                  Throws e \<Rightarrow> Throws e
                | Beyond \<Rightarrow> Beyond
                | Returns r' \<Rightarrow> Returns (r @ r'))))"
  by (simp split: option.splits prod.splits outcome.splits)

lemma no_reference_scan: "\<forall>i<length s. ref_match (drop i s) = None \<Longrightarrow> no_reference s"
  using pieces_scan [of s "[]"] by (simp add: no_reference_def)

lemma no_reference_text: "CHR '':'' \<notin> set s \<Longrightarrow> no_reference s"
  using no_colon_scan [of s "[]"] by (simp add: no_reference_scan)

text \<open>The raw value of a key path that the resource holds by own keys is that entry.\<close>

lemma join_dot: "ks \<noteq> [] \<Longrightarrow> CHR ''.'' \<in> set (join ''.'' (k # ks))"
  by (cases ks) auto

lemma reduce_walk: "walk e ks = Some e' \<Longrightarrow> reduce (value_of e) ks = Returns (value_of e')"
proof (induction e ks rule: walk.induct)
  case (1 e)
  then show ?case by simp
next
  case (2 s k ks)
  then show ?case by simp
next
  case (3 r k ks)
  then show ?case by (auto split: option.splits)
qed

lemma nullish_value_of: "\<not> nullish (value_of e)"
  by (cases e) auto

lemma raw_of_own_entry:
  assumes "own_entry r key = Some e"
  shows "raw_of (Obj r) key = Returns (value_of e)"
proof (cases "map_of r (join ''.'' key)")
  case (Some e')
  with assms have "e' = e" by (simp add: own_entry_def)
  with Some show ?thesis by (simp add: raw_of_def nullish_value_of)
next
  case None
  with assms have w: "walk (Node r) key = Some e"
    by (simp add: own_entry_def)
  have "inherit (join ''.'' key) = Undefined"
  proof (cases key)
    case Nil
    then show ?thesis by (simp add: inherit_plain inherited_def object_prototype_functions_def)
  next
    case (Cons k ks)
    show ?thesis
    proof (cases ks)
      case Nil
      with Cons None w show ?thesis by simp
    next
      case (Cons k' ks')
      then show ?thesis
        using \<open>key = k # ks\<close> join_dot [of ks k] by (simp add: inherit_plain inherited_no_dot)
    qed
  qed
  then show ?thesis
    using None reduce_walk [OF w] by (simp add: raw_of_def)
qed

lemma walk_nested: "walk (nested ks x) ks = Some (Leaf x)"
  by (induction ks) simp_all

lemma own_entry_flattened: "own_entry [(join ''.'' key, Leaf x)] key = Some (Leaf x)"
  by (simp add: own_entry_def)

lemma own_entry_nested: "own_entry [(k, nested ks x)] (k # ks) = Some (Leaf x)"
proof (cases ks)
  case Nil
  then show ?thesis by (simp add: own_entry_def)
next
  case (Cons k' ks')
  then have "join ''.'' (k # ks) \<noteq> k" by simp
  then show ?thesis
    using walk_nested [of ks x] by (simp add: own_entry_def)
qed

subsection \<open>read\<close>

text \<open>
  \<^verbatim>\<open>read\<close> for a pair that has a notifier of its own, once the raw value has been found.
\<close>

lemma read_Suc:
  assumes "lookup (resources st) l m = Returns resource"
    and "raw_of (found_value resource) k = Returns raw"
    and "own (notifiers st) l m = Some notifier"
  shows "read (Suc n) st l m k =
     (case notifier k raw of
        Some e \<Rightarrow> (Throws e, [(l, m, k, raw)])
      | None \<Rightarrow>
          if \<not> truthy raw then (Throws KeyMissing, [(l, m, k, raw)])
          else if typeof_object raw then (Throws KeyPartial, [(l, m, k, raw)])
          else
            (case raw of
               Text s \<Rightarrow>
                 (fst (replaceAll n st l m (pieces s)),
                  (l, m, k, raw) # snd (replaceAll n st l m (pieces s)))
             | _ \<Rightarrow>
                 ((case get_prop raw ''replaceAll'' of
                     Throws e \<Rightarrow> Throws e
                   | Beyond \<Rightarrow> Beyond
                   | Returns v \<Rightarrow> Throws TypeError),
                  [(l, m, k, raw)])))"
  using assms lookup_strict_own [OF assms(3)]
  by (simp add: call_notifier_def split: option.splits prod.splits jsval.splits)

declare read.simps(2) [simp del]

text \<open>
  The depth only matters when it is exhausted: a \<^verbatim>\<open>read\<close> that returns a string at one
  depth returns the same, with the same notifier calls, at every greater depth.
\<close>

lemma read_deeper:
  "fst (read n st l m k) = Returns r \<Longrightarrow> read (Suc n) st l m k = read n st l m k"
  "fst (replaceAll n st l m ps) = Returns r \<Longrightarrow> replaceAll (Suc n) st l m ps = replaceAll n st l m ps"
proof (induction n st l m k and n st l m ps arbitrary: r and r rule: read_replaceAll.induct)
  case (1 st l m k)
  then show ?case by simp
next
  case (2 n st l m k)
  show ?case
  proof (cases "lookup (resources st) l m")
    case (Returns resource)
    show ?thesis
    proof (cases "raw_of (found_value resource) k")
      case raw: (Returns raw)
      show ?thesis
      proof (cases "lookup_strict (notifiers st) l m")
        case callee: (Returns callee)
        obtain x log where call: "call_notifier (notifiers st l) callee l m k raw = (x, log)"
          by (cases "call_notifier (notifiers st l) callee l m k raw") auto
        show ?thesis
        proof (cases x)
          case ret: (Returns u)
          show ?thesis
          proof (cases raw)
            case (Text s)
            show ?thesis
            proof (cases "s = []")
              case True
              then show ?thesis
                using "2.prems" Returns raw callee call ret Text by (simp add: read.simps(2))
            next
              case False
              with "2.prems" Returns raw callee call ret Text
              obtain r' where "fst (replaceAll n st l m (pieces s)) = Returns r'"
                by (auto simp: read.simps(2) split: prod.splits)
              from "2.IH" [OF Returns raw callee call [symmetric] ret _ _ Text this] False Text
              have "replaceAll (Suc n) st l m (pieces s) = replaceAll n st l m (pieces s)"
                by simp
              then show ?thesis
                using Returns raw callee call ret Text False
                by (simp add: read.simps(2) [of "Suc n"] read.simps(2) [of n])
            qed
          qed (use "2.prems" Returns raw callee call ret in
                \<open>auto simp: read.simps(2) split: if_splits outcome.splits\<close>)
        qed (use "2.prems" Returns raw callee call in \<open>simp_all add: read.simps(2)\<close>)
      qed (use "2.prems" Returns raw in \<open>simp_all add: read.simps(2)\<close>)
    qed (use "2.prems" Returns in \<open>simp_all add: read.simps(2)\<close>)
  qed (use "2.prems" in \<open>simp_all add: read.simps(2)\<close>)
next
  case (3 n st l m)
  then show ?case by simp
next
  case (4 n st l m c ps)
  then show ?case by (auto split: prod.splits outcome.splits)
next
  case (5 n st l m nestedId ps)
  show ?case
  proof (cases "reference m nestedId")
    case None
    then show ?thesis by simp
  next
    case (Some a)
    obtain ns key where a: "a = (ns, key)" by (cases a) auto
    obtain x acc where ra: "read n st l ns key = (x, acc)" by (cases "read n st l ns key") auto
    from "5.prems" Some a ra obtain b where b: "x = Returns b"
      by (cases x) auto
    obtain y acc' where rb: "replaceAll n st l m ps = (y, acc')"
      by (cases "replaceAll n st l m ps") auto
    from "5.prems" Some a ra b rb obtain b' where b': "y = Returns b'"
      by (cases y) auto
    have e1: "read (Suc n) st l ns key = read n st l ns key"
      using "5.IH"(1) [OF Some a [symmetric], of b] ra b by simp
    have e2: "replaceAll (Suc n) st l m ps = replaceAll n st l m ps"
      using "5.IH"(2) [OF Some a [symmetric] ra [symmetric] b, of b'] rb b' by simp
    show ?thesis
      by (simp only: replaceAll.simps Some a option.case prod.case e1 e2)
  qed
qed

lemma read_enough_depth:
  assumes "fst (read n st l m k) = Returns r" and "n \<le> n'"
  shows "read n' st l m k = read n st l m k"
  using assms(2)
proof (induction rule: dec_induct)
  case base
  show ?case by simp
next
  case (step j)
  with assms(1) have "fst (read j st l m k) = Returns r"
    by simp
  from read_deeper(1) [OF this] step show ?case
    by simp
qed


lemma example_notifier:
  assumes "m \<in> set example_modules"
  shows "\<exists>nf. own (notifiers example_instance) ''en'' m = Some nf \<and> (\<forall>k raw. nf k raw = None)"
proof -
  have "list_all (\<lambda>m. case own (notifiers example_instance) ''en'' m of
          Some nf \<Rightarrow> nf k raw = None | None \<Rightarrow> False) example_modules" for k raw
    by code_simp
  with assms have "case own (notifiers example_instance) ''en'' m of
      Some nf \<Rightarrow> nf k raw = None | None \<Rightarrow> False" for k raw
    by (simp add: list_all_iff)
  then show ?thesis
    by (cases "own (notifiers example_instance) ''en'' m") auto
qed

lemma example_resource:
  "lookup (resources example_instance) ''en'' ''base'' = Returns (Own example_base)"
  "lookup (resources example_instance) ''en'' ''flat'' = Returns (Own [(''a.b'', Leaf ''x'')])"
  "lookup (resources example_instance) ''en'' ''nest'' = Returns (Own [(''a'', Node [(''b'', Leaf ''x'')])])"
  "lookup (resources example_instance) ''en'' ''void'' = Returns (Own [(''a.b'', Leaf [])])"
  "lookup (resources example_instance) ''en'' ''hollow'' = Returns (Own [(''a'', Node [(''b'', Leaf [])])])"
  by code_simp+




text \<open>
  C4, as stated, fails. The modules \<^verbatim>\<open>void\<close>, \<^verbatim>\<open>{ "a.b": "" }\<close>, and \<^verbatim>\<open>hollow\<close>,
  \<^verbatim>\<open>{ a: { b: "" } }\<close>, of the example are the flattened and the nested form of the key path
  \<^verbatim>\<open>["a", "b"]\<close> with the empty string as leaf. Both resolve to that leaf, and for neither
  does \<^verbatim>\<open>read\<close> yield the leaf string: it throws the key-missing error.
\<close>

theorem flattened_nested_empty_counterexample:
  "lookup (resources example_instance) ''en'' ''void'' =
     Returns (Own [(join ''.'' [''a'', ''b''], Leaf [])]) \<and>
   lookup (resources example_instance) ''en'' ''hollow'' =
     Returns (Own [(''a'', nested [''b''] [])]) \<and>
   fst (read 1 example_instance ''en'' ''void'' [''a'', ''b'']) = Throws KeyMissing \<and>
   fst (read 1 example_instance ''en'' ''hollow'' [''a'', ''b'']) = Throws KeyMissing"
  by code_simp

text \<open>
  C4, amended. Take a key path \<open>k # ks\<close> and a leaf \<open>x\<close>, under a notifier that returns
  normally. On the resource with the single flattened key, on the nested resource, and on
  any resource that has the flattened key bound to the leaf (whatever a traversal by
  segments would find, since the flattened key is tried first), the raw value is the leaf
  \<open>x\<close>, and \<^verbatim>\<open>read\<close> does the same in every case: it throws the key-missing error when \<open>x\<close>
  is empty, and otherwise returns \<open>x\<close> with its reference markers replaced, which is
  \<open>x\<close> itself when it has none.
\<close>

theorem flattened_nested_same_leaf:
  assumes "own (notifiers st) locale module = Some notifier"
    and "notifier (k # ks) (Text x) = None"
    and "lookup (resources st) locale module = Returns (Own r)"
    and "r = [(join ''.'' (k # ks), Leaf x)] \<or> r = [(k, nested ks x)] \<or>
         map_of r (join ''.'' (k # ks)) = Some (Leaf x)"
  shows "raw_of (Obj r) (k # ks) = Returns (Text x) \<and>
         fst (read (Suc n) st locale module (k # ks)) =
           (if x = [] then Throws KeyMissing
            else fst (replaceAll n st locale module (pieces x))) \<and>
         (x \<noteq> [] \<and> no_reference x \<longrightarrow>
            fst (read (Suc n) st locale module (k # ks)) = Returns x)"
proof -
  from assms(4) have "own_entry r (k # ks) = Some (Leaf x)"
    using own_entry_flattened [of "k # ks" x] own_entry_nested [of k ks x]
    by (auto simp: own_entry_def)
  from raw_of_own_entry [OF this] have raw: "raw_of (found_value (Own r)) (k # ks) = Returns (Text x)"
    by simp
  have rd: "fst (read (Suc n) st locale module (k # ks)) =
      (if x = [] then Throws KeyMissing else fst (replaceAll n st locale module (pieces x)))"
    unfolding read_Suc [OF assms(3) raw assms(1)] using assms(2) by simp
  then have "fst (read (Suc n) st locale module (k # ks)) = Returns x"
    if "x \<noteq> []" "no_reference x"
    using that by (simp add: no_reference_def replaceAll_plain)
  with raw rd show ?thesis
    by simp
qed

text \<open>
  C4, witness: the modules \<^verbatim>\<open>flat\<close>, \<^verbatim>\<open>{ "a.b": "x" }\<close>, and \<^verbatim>\<open>nest\<close>, \<^verbatim>\<open>{ a: { b: "x" } }\<close>, of
  the example both give \<^verbatim>\<open>x\<close> for the key path \<^verbatim>\<open>["a", "b"]\<close>.
\<close>

theorem flattened_nested_same_leaf_witness:
  "fst (read (Suc 0) example_instance ''en'' ''flat'' [''a'', ''b'']) = Returns ''x'' \<and>
   fst (read (Suc 0) example_instance ''en'' ''nest'' [''a'', ''b'']) = Returns ''x''"
proof -
  from example_notifier [of "''flat''"] obtain nf where
    nf: "own (notifiers example_instance) ''en'' ''flat'' = Some nf" "\<And>k raw. nf k raw = None"
    by (auto simp: example_modules_def)
  from example_notifier [of "''nest''"] obtain nf' where
    nf': "own (notifiers example_instance) ''en'' ''nest'' = Some nf'" "\<And>k raw. nf' k raw = None"
    by (auto simp: example_modules_def)
  have nr: "''x'' \<noteq> [] \<and> no_reference ''x''"
    using no_reference_text [of "''x''"] by simp
  have flat: "[(''a.b'', Leaf ''x'')] = [(join ''.'' (''a'' # [''b'']), Leaf ''x'')] \<or>
      [(''a.b'', Leaf ''x'')] = [(''a'', nested [''b''] ''x'')] \<or>
      map_of [(''a.b'', Leaf ''x'')] (join ''.'' (''a'' # [''b''])) = Some (Leaf ''x'')"
    by simp
  have nest: "[(''a'', Node [(''b'', Leaf ''x'')])] = [(join ''.'' (''a'' # [''b'']), Leaf ''x'')] \<or>
      [(''a'', Node [(''b'', Leaf ''x'')])] = [(''a'', nested [''b''] ''x'')] \<or>
      map_of [(''a'', Node [(''b'', Leaf ''x'')])] (join ''.'' (''a'' # [''b''])) = Some (Leaf ''x'')"
    by simp
  have "fst (read (Suc 0) example_instance ''en'' ''flat'' [''a'', ''b'']) = Returns ''x''"
    using nr
    by (rule flattened_nested_same_leaf [OF nf(1) nf(2) example_resource(2) flat,
          THEN conjunct2, THEN conjunct2, THEN mp])
  moreover have "fst (read (Suc 0) example_instance ''en'' ''nest'' [''a'', ''b'']) = Returns ''x''"
    using nr
    by (rule flattened_nested_same_leaf [OF nf'(1) nf'(2) example_resource(3) nest,
          THEN conjunct2, THEN conjunct2, THEN mp])
  ultimately show ?thesis by blast
qed

lemma example_expansions:
  "fst (read (Suc (Suc d)) example_instance ''en'' ''base'' [''welcome'']) = Returns ''Hi X''"
  "fst (read (Suc (Suc d)) example_instance ''en'' ''m1'' [''k'']) = Returns ''Y''"
  "fst (read (Suc (Suc d)) example_instance ''en'' ''base'' [''link'']) = Returns ''<a>X</a>''"
proof -
  have two:
    "fst (read 2 example_instance ''en'' ''base'' [''welcome'']) = Returns ''Hi X''"
    "fst (read 2 example_instance ''en'' ''m1'' [''k'']) = Returns ''Y''"
    "fst (read 2 example_instance ''en'' ''base'' [''link'']) = Returns ''<a>X</a>''"
    by code_simp+
  have le: "2 \<le> Suc (Suc d)"
    by simp
  show "fst (read (Suc (Suc d)) example_instance ''en'' ''base'' [''welcome'']) = Returns ''Hi X''"
    using read_enough_depth [OF two(1) le] two(1) by simp
  show "fst (read (Suc (Suc d)) example_instance ''en'' ''m1'' [''k'']) = Returns ''Y''"
    using read_enough_depth [OF two(2) le] two(2) by simp
  show "fst (read (Suc (Suc d)) example_instance ''en'' ''base'' [''link'']) = Returns ''<a>X</a>''"
    using read_enough_depth [OF two(3) le] two(3) by simp
qed

text \<open>
  C5. Take a leaf \<open>pre @ ''<:'' @ ref @ ''/>'' @ post\<close> in which the regular expression
  matches at no position of \<open>pre\<close>, and \<open>ref\<close> is non-empty, without line terminator, and
  without \<^verbatim>\<open>/>\<close> after its first character. The marker is replaced by what the nested
  \<^verbatim>\<open>read\<close> returns, the text before it is kept, and the replacement goes on with \<open>post\<close> in
  the same way; an exception of the nested \<^verbatim>\<open>read\<close> is the result. A text in which the
  regular expression matches nowhere is unchanged. The nested \<^verbatim>\<open>read\<close> is for the module and
  key that the pieces of \<open>ref\<close>, split on \<^verbatim>\<open>:\<close> and reversed, give: \<open>ref\<close> without colon is a
  key of the same module, \<open>ns @ '':'' @ key\<close> is the key \<open>key\<close> of the module \<open>ns\<close>; the
  key is split on dots. In the example, at any depth of two calls or more, \<^verbatim>\<open>welcome\<close>
  resolves to \<^verbatim>\<open>Hi X\<close>, the key \<^verbatim>\<open>k\<close> of \<^verbatim>\<open>m1\<close>, which is \<^verbatim>\<open><:m2:other/>\<close>, resolves to the value
  of \<^verbatim>\<open>other\<close> in \<^verbatim>\<open>m2\<close>, and \<^verbatim>\<open><a><:app/></a>\<close> resolves to \<^verbatim>\<open><a>X</a>\<close>.
\<close>

theorem reference_expansion:
  assumes "\<forall>i<length pre. ref_match (drop i (pre @ ''<:'' @ ref @ ''/>'' @ post)) = None"
    and "ref \<noteq> []" and "\<forall>c\<in>set ref. \<not> line_terminator c"
    and "\<forall>i. 0 < i \<longrightarrow> take 2 (drop i ref) \<noteq> ''/>''"
  shows "fst (replaceAll n st locale module (pieces (pre @ ''<:'' @ ref @ ''/>'' @ post))) =
           (case reference module ref of
              None \<Rightarrow> Throws TypeError
            | Some (ns, key) \<Rightarrow>
                (case fst (read n st locale ns key) of
                   Throws e \<Rightarrow> Throws e
                 | Beyond \<Rightarrow> Beyond
                 | Returns r \<Rightarrow>
                     (case fst (replaceAll n st locale module (pieces post)) of
                        Throws e \<Rightarrow> Throws e
                      | Beyond \<Rightarrow> Beyond
                      | Returns r' \<Rightarrow> Returns (pre @ r @ r')))) \<and>
         (\<forall>s. (\<forall>i<length s. ref_match (drop i s) = None) \<longrightarrow>
            fst (replaceAll n st locale module (pieces s)) = Returns s) \<and>
         (CHR '':'' \<notin> set ref \<longrightarrow> reference module ref = Some (module, split CHR ''.'' ref)) \<and>
         (\<forall>ns key. ref = ns @ CHR '':'' # key \<and> CHR '':'' \<notin> set ns \<and> CHR '':'' \<notin> set key \<longrightarrow>
            reference module ref = Some (ns, split CHR ''.'' key)) \<and>
         fst (read (Suc (Suc d)) example_instance ''en'' ''base'' [''welcome'']) = Returns ''Hi X'' \<and>
         fst (read (Suc (Suc d)) example_instance ''en'' ''m1'' [''k'']) = Returns ''Y'' \<and>
         fst (read (Suc (Suc d)) example_instance ''en'' ''base'' [''link'']) = Returns ''<a>X</a>''"
proof -
  have "pieces (''<:'' @ ref @ ''/>'' @ post) = Inr ref # pieces post"
    by (rule pieces_match [OF ref_match_marker [OF assms(2,3,4)]])
  with pieces_scan [OF assms(1)]
  have "pieces (pre @ ''<:'' @ ref @ ''/>'' @ post) = map Inl pre @ Inr ref # pieces post"
    by simp
  then have "fst (replaceAll n st locale module (pieces (pre @ ''<:'' @ ref @ ''/>'' @ post))) =
      (case fst (replaceAll n st locale module (Inr ref # pieces post)) of
         Returns r \<Rightarrow> Returns (pre @ r)
       | Throws e \<Rightarrow> Throws e
       | Beyond \<Rightarrow> Beyond)"
    by (simp only: replaceAll_text_fst)
  then have main: "fst (replaceAll n st locale module (pieces (pre @ ''<:'' @ ref @ ''/>'' @ post))) =
           (case reference module ref of
              None \<Rightarrow> Throws TypeError
            | Some (ns, key) \<Rightarrow>
                (case fst (read n st locale ns key) of
                   Throws e \<Rightarrow> Throws e
                 | Beyond \<Rightarrow> Beyond
                 | Returns r \<Rightarrow>
                     (case fst (replaceAll n st locale module (pieces post)) of
                        Throws e \<Rightarrow> Throws e
                      | Beyond \<Rightarrow> Beyond
                      | Returns r' \<Rightarrow> Returns (pre @ r @ r'))))"
    unfolding replaceAll_reference by (simp split: option.splits outcome.splits)
  have unchanged: "fst (replaceAll n st locale module (pieces s)) = Returns s"
    if "\<forall>i<length s. ref_match (drop i s) = None" for s
    using no_reference_scan [OF that] by (simp add: no_reference_def replaceAll_plain)
  show ?thesis
    using main unchanged reference_key [of ref module] reference_module_key [of _ _ module]
      example_expansions [of d]
    by blast
qed

text \<open>
  C5, witness: the leaf \<^verbatim>\<open><a><:app/></a>\<close>, a marker inside a tag, in the module \<^verbatim>\<open>base\<close> of the
  example, and the marker \<^verbatim>\<open><:m2:other/>\<close> in the module \<^verbatim>\<open>m1\<close>.
\<close>

theorem reference_expansion_witness:
  "fst (replaceAll (Suc 0) example_instance ''en'' ''base'' (pieces ''<a><:app/></a>'')) = Returns ''<a>X</a>'' \<and>
   fst (replaceAll (Suc 0) example_instance ''en'' ''m1'' (pieces ''<:m2:other/>'')) = Returns ''Y''"
proof -
  have rd: "fst (read (Suc 0) example_instance ''en'' ''base'' [''app'']) = Returns ''X''"
    "fst (read (Suc 0) example_instance ''en'' ''m2'' [''other'']) = Returns ''Y''"
    "fst (replaceAll (Suc 0) example_instance ''en'' ''base'' (pieces ''</a>'')) = Returns ''</a>''"
    "fst (replaceAll (Suc 0) example_instance ''en'' ''m1'' (pieces [])) = Returns []"
    by code_simp+
  have app: "''app'' \<noteq> []" "\<forall>c\<in>set ''app''. \<not> line_terminator c"
    "\<forall>i. 0 < i \<longrightarrow> take 2 (drop i ''app'') \<noteq> ''/>''" "CHR '':'' \<notin> set ''app''"
  proof -
    show "\<forall>i. 0 < i \<longrightarrow> take 2 (drop i ''app'') \<noteq> ''/>''"
      by (rule no_closer_inside) simp
  qed (simp_all add: line_terminator_def)
  have other: "''m2:other'' \<noteq> []" "\<forall>c\<in>set ''m2:other''. \<not> line_terminator c"
    "\<forall>i. 0 < i \<longrightarrow> take 2 (drop i ''m2:other'') \<noteq> ''/>''"
    "''m2:other'' = ''m2'' @ CHR '':'' # ''other'' \<and> CHR '':'' \<notin> set ''m2'' \<and> CHR '':'' \<notin> set ''other''"
  proof -
    show "\<forall>i. 0 < i \<longrightarrow> take 2 (drop i ''m2:other'') \<noteq> ''/>''"
      by (rule no_closer_inside) simp
  qed (simp_all add: line_terminator_def)
  have scan1: "\<forall>i<length ''<a>''. ref_match (drop i (''<a>'' @ ''<:'' @ ''app'' @ ''/>'' @ ''</a>'')) = None"
    by (rule no_colon_scan) simp_all
  have scan2: "\<forall>i<length []. ref_match (drop i ([] @ ''<:'' @ ''m2:other'' @ ''/>'' @ [])) = None"
    by simp
  note same = reference_expansion [OF scan1 app(1-3), of "Suc 0" example_instance "''en''" "''base''"]
  note cross = reference_expansion [OF scan2 other(1-3), of "Suc 0" example_instance "''en''" "''m1''"]
  have r1: "reference ''base'' ''app'' = Some (''base'', split CHR ''.'' ''app'')"
    using same app(4) by blast
  have r2: "reference ''m1'' ''m2:other'' = Some (''m2'', split CHR ''.'' ''other'')"
    using cross other(4) by blast
  have "fst (replaceAll (Suc 0) example_instance ''en'' ''base''
          (pieces (''<a>'' @ ''<:'' @ ''app'' @ ''/>'' @ ''</a>''))) = Returns ''<a>X</a>''"
    unfolding same [THEN conjunct1] r1 rd(3) by (simp add: rd(1))
  moreover have "fst (replaceAll (Suc 0) example_instance ''en'' ''m1''
          (pieces ([] @ ''<:'' @ ''m2:other'' @ ''/>'' @ []))) = Returns ''Y''"
    unfolding cross [THEN conjunct1] r2 rd(4) by (simp add: rd(2))
  ultimately show ?thesis by simp
qed

subsection \<open>format and the cache\<close>

lemma attempt_hit:
  "formatters st (format_id l m k) = Some f \<Longrightarrow> attempt P n st l m k v = (outcome_of (f v), st)"
  by (simp add: attempt_def)

lemma attempt_read_throws:
  "formatters st (format_id l m k) = None \<Longrightarrow> read n st l m k = (Throws e, acc) \<Longrightarrow>
   attempt P n st l m k v = (Throws e, st\<lparr>notified := notified st @ acc\<rparr>)"
  by (simp add: attempt_def)

lemma attempt_read_beyond:
  "formatters st (format_id l m k) = None \<Longrightarrow> read n st l m k = (Beyond, acc) \<Longrightarrow>
   attempt P n st l m k v = (Beyond, st\<lparr>notified := notified st @ acc\<rparr>)"
  by (simp add: attempt_def)

lemma attempt_parse_fail:
  "formatters st (format_id l m k) = None \<Longrightarrow> read n st l m k = (Returns raw, acc) \<Longrightarrow>
   parse P l m [] raw = Inl e \<Longrightarrow>
   attempt P n st l m k v =
     (Throws e, st\<lparr>notified := notified st @ acc, parsed := parsed st @ [(l, m, [], raw)]\<rparr>)"
  by (simp add: attempt_def)

lemma attempt_parse_ok:
  "formatters st (format_id l m k) = None \<Longrightarrow> read n st l m k = (Returns raw, acc) \<Longrightarrow>
   parse P l m [] raw = Inr f \<Longrightarrow>
   attempt P n st l m k v =
     (outcome_of (f v),
      st\<lparr>notified := notified st @ acc, parsed := parsed st @ [(l, m, [], raw)],
         formatters := (formatters st)(format_id l m k \<mapsto> f)\<rparr>)"
  by (simp add: attempt_def)

lemma attempt_cases:
  obtains (hit) f where "formatters st (format_id l m k) = Some f"
      "attempt P n st l m k v = (outcome_of (f v), st)"
  | (read_throws) e acc where "formatters st (format_id l m k) = None"
      "read n st l m k = (Throws e, acc)"
      "attempt P n st l m k v = (Throws e, st\<lparr>notified := notified st @ acc\<rparr>)"
  | (read_beyond) acc where "formatters st (format_id l m k) = None"
      "read n st l m k = (Beyond, acc)"
      "attempt P n st l m k v = (Beyond, st\<lparr>notified := notified st @ acc\<rparr>)"
  | (parse_fail) raw acc e where "formatters st (format_id l m k) = None"
      "read n st l m k = (Returns raw, acc)" "parse P l m [] raw = Inl e"
      "attempt P n st l m k v =
         (Throws e, st\<lparr>notified := notified st @ acc, parsed := parsed st @ [(l, m, [], raw)]\<rparr>)"
  | (parse_ok) raw acc f where "formatters st (format_id l m k) = None"
      "read n st l m k = (Returns raw, acc)" "parse P l m [] raw = Inr f"
      "attempt P n st l m k v =
         (outcome_of (f v),
          st\<lparr>notified := notified st @ acc, parsed := parsed st @ [(l, m, [], raw)],
             formatters := (formatters st)(format_id l m k \<mapsto> f)\<rparr>)"
proof (cases "formatters st (format_id l m k)")
  case (Some f)
  show ?thesis
    by (rule hit [OF Some attempt_hit [OF Some]])
next
  case None
  obtain r acc where ra: "read n st l m k = (r, acc)"
    by (cases "read n st l m k") auto
  show ?thesis
  proof (cases r)
    case (Throws e)
    with ra have ra': "read n st l m k = (Throws e, acc)" by simp
    show ?thesis
      by (rule read_throws [OF None ra' attempt_read_throws [OF None ra']])
  next
    case Beyond
    with ra have ra': "read n st l m k = (Beyond, acc)" by simp
    show ?thesis
      by (rule read_beyond [OF None ra' attempt_read_beyond [OF None ra']])
  next
    case (Returns raw)
    with ra have ra': "read n st l m k = (Returns raw, acc)" by simp
    show ?thesis
    proof (cases "parse P l m [] raw")
      case (Inl e)
      show ?thesis
        by (rule parse_fail [OF None ra' Inl attempt_parse_fail [OF None ra' Inl]])
    next
      case pf: (Inr f)
      show ?thesis
        by (rule parse_ok [OF None ra' pf attempt_parse_ok [OF None ra' pf]])
    qed
  qed
qed


lemma attempt_formatters_keep:
  "formatters st i = Some f \<Longrightarrow> formatters (snd (attempt P n st l m k v)) i = Some f"
  by (cases rule: attempt_cases [of st l m k P n v]) auto

lemma attempt_formatters_other:
  "i \<noteq> format_id l m k \<Longrightarrow> formatters (snd (attempt P n st l m k v)) i = formatters st i"
  by (cases rule: attempt_cases [of st l m k P n v]) auto


lemma format_loop_Cons:
  assumes "lookup (resources st) l m = Returns found" and "attempt P n st l m k v = (r, st')"
  shows "format_loop P n st m k v (l # ls) =
     (case r of
        Returns result \<Rightarrow> (Returns result, st')
      | Beyond \<Rightarrow> (Beyond, st')
      | Throws e \<Rightarrow> format_loop P n st' m k v ls)"
  by (cases r) (simp_all add: assms)

lemma format_loop_invariant:
  assumes "Q st" and "\<And>st l. Q st \<Longrightarrow> Q (snd (attempt P n st l m k v))"
  shows "Q (snd (format_loop P n st m k v ls))"
  using assms(1)
proof (induction ls arbitrary: st)
  case Nil
  then show ?case by simp
next
  case (Cons l ls)
  show ?case
  proof (cases "lookup (resources st) l m")
    case (Returns found)
    obtain r st' where at: "attempt P n st l m k v = (r, st')"
      by (cases "attempt P n st l m k v") auto
    from assms(2) [OF Cons.prems, of l] at have q: "Q st'"
      by simp
    show ?thesis
      unfolding format_loop_Cons [OF Returns at]
      using q Cons.IH [OF q] by (cases r) simp_all
  next
    case (Throws e)
    then show ?thesis using Cons.prems by simp
  next
    case Beyond
    then show ?thesis using Cons.prems by simp
  qed
qed


lemma format_loop_formatters_keep:
  "formatters st i = Some f \<Longrightarrow> formatters (snd (format_loop P n st m k v ls)) i = Some f"
  by (rule format_loop_invariant [where Q = "\<lambda>s. formatters s i = Some f"])
    (simp_all add: attempt_formatters_keep)















end
